theory Spec2Isabelle
  imports Main
begin

section \<open>Time\<close>

text \<open>
  A JavaScript \<^verbatim>\<open>Date\<close> and a \<^verbatim>\<open>dayjs\<close> object both hold a number of milliseconds
  since the epoch, an integer here. Calendar arithmetic (\<^verbatim>\<open>setDate\<close>, \<^verbatim>\<open>subtract(n, "day")\<close>,
  \<^verbatim>\<open>isSame(d, "day")\<close>) is done by the libraries in the local time zone; the model takes
  the zone to be UTC, where a calendar day is exactly \<open>msPerDay\<close> milliseconds long and
  the calendar day of a timestamp is its quotient by \<open>msPerDay\<close>.
\<close>

type_synonym timestamp = int

definition msPerDay :: int where
  "msPerDay = 86400000"

definition dayOf :: "timestamp \<Rightarrow> int" where
  "dayOf t = t div msPerDay"

definition subtractDays :: "timestamp \<Rightarrow> nat \<Rightarrow> timestamp" where
  \<comment> \<open>\<^verbatim>\<open>d.subtract(n, "day")\<close>\<close>
  "subtractDays d n = d - int n * msPerDay"

definition isBefore :: "timestamp \<Rightarrow> timestamp \<Rightarrow> bool" where
  "isBefore a b = (a < b)"

definition isAfter :: "timestamp \<Rightarrow> timestamp \<Rightarrow> bool" where
  "isAfter a b = (b < a)"

definition isSameDay :: "timestamp \<Rightarrow> timestamp \<Rightarrow> bool" where
  \<comment> \<open>\<^verbatim>\<open>a.isSame(b, "day")\<close>\<close>
  "isSameDay a b = (dayOf a = dayOf b)"

section \<open>The subscription model\<close>

datatype frequency = Daily | Weekly | Monthly | Yearly

datatype status = Active | Cancelled | Expired

text \<open>The owning user as \<^verbatim>\<open>populate("user", ...)\<close> resolves it: fields that are not
  resolved are \<^verbatim>\<open>undefined\<close>.\<close>

record user =
  username :: "string option"
  email :: "string option"

text \<open>A subscription document. \<open>renewalDate\<close> is optional in the schema; \<open>user\<close> is
  \<open>None\<close> when the reference resolves to no document. \<open>price\<close> holds the text that a
  template literal prints for the number.\<close>

record subscription =
  name :: string
  price :: string
  frequency :: frequency
  currency :: string
  category :: string
  paymentMethod :: string
  status :: status
  startDate :: timestamp
  renewalDate :: "timestamp option"
  user :: "user option"

definition renewalPeriods :: "frequency \<Rightarrow> int" where
  "renewalPeriods f = (case f of Daily \<Rightarrow> 1 | Weekly \<Rightarrow> 7 | Monthly \<Rightarrow> 30 | Yearly \<Rightarrow> 365)"

text \<open>The \<^verbatim>\<open>pre("save")\<close> hook; \<open>now\<close> is the value of \<^verbatim>\<open>new Date()\<close>.\<close>

definition preSave :: "timestamp \<Rightarrow> subscription \<Rightarrow> subscription" where
  "preSave now s =
     (let s1 = (case renewalDate s of
                  None \<Rightarrow>
                    s\<lparr>renewalDate :=
                        Some (startDate s + renewalPeriods (frequency s) * msPerDay)\<rparr>
                | Some _ \<Rightarrow> s)
      in case renewalDate s1 of
           None \<Rightarrow> s1
         | Some d \<Rightarrow> if d < now then s1\<lparr>status := Expired\<rparr> else s1)"

definition show_frequency :: "frequency \<Rightarrow> string" where
  "show_frequency f =
     (case f of Daily \<Rightarrow> ''daily'' | Weekly \<Rightarrow> ''weekly'' | Monthly \<Rightarrow> ''monthly''
      | Yearly \<Rightarrow> ''yearly'')"

section \<open>Sending a reminder email\<close>

datatype js_error =
    MissingRequiredFields
  | InvalidTemplateType
  | TypeError
  | TransportFailure string
  | FailedToSendEmail

text \<open>What the callback given to the second call of \<^verbatim>\<open>transporter.sendMail\<close> does when
  the transport answers: it logs the response, or, on an error, it throws.\<close>

datatype callback = Logged string | Thrown js_error

text \<open>What the templates are given, and a template of \<^verbatim>\<open>emailTemplates\<close>: the module
  that defines the templates is a parameter of the model (\<open>emailTemplates\<close> below).\<close>

record mailInfo =
  userName :: "string option"
  subscriptionName :: string
  renewalDateText :: string
  planName :: string
  priceText :: string
  paymentMethodText :: string

record template =
  label :: string
  generateSubject :: "mailInfo \<Rightarrow> string"
  generateBody :: "mailInfo \<Rightarrow> string"

record mailOptions =
  sender :: string
  recipient :: string
  subject :: string
  html :: string

text \<open>The object that \<^verbatim>\<open>transporter.sendMail\<close> resolves to.\<close>

record sentInfo =
  accepted :: "string list"
  response :: string

text \<open>The argument of one call of \<^verbatim>\<open>transporter.sendMail\<close>: the source calls it with
  the options it composed, and then again with the object the first call returned.\<close>

datatype sendMailArg = Composed mailOptions | Returned sentInfo

text \<open>The collaborators of the module: the templates, the date formatter
  (\<^verbatim>\<open>format("MMM D, YYYY")\<close>) and the mail transport, which answers a call made at a time
  with an error message or with an info object.\<close>

record mailer =
  emailTemplates :: "template list"
  formatDate :: "timestamp \<Rightarrow> string"
  sendMail :: "timestamp \<Rightarrow> sendMailArg \<Rightarrow> string + sentInfo"

definition accountEmail :: string where
  "accountEmail = ''ratishjain6@gmail.com''"

text \<open>JavaScript truthiness of an optional string: \<^verbatim>\<open>undefined\<close> and the empty string
  are falsy.\<close>

fun falsy :: "string option \<Rightarrow> bool" where
  "falsy None = True"
| "falsy (Some s) = (s = [])"

text \<open>\<^verbatim>\<open>dayjs(d)\<close>: \<^verbatim>\<open>dayjs(undefined)\<close> is the current time.\<close>

fun dayjs :: "timestamp \<Rightarrow> timestamp option \<Rightarrow> timestamp" where
  "dayjs now None = now"
| "dayjs now (Some d) = d"

text \<open>
  \<^verbatim>\<open>sendReminderEmail({ to, type, subscription })\<close> called at time \<open>now\<close>. The result is
  the list of calls made to \<^verbatim>\<open>transporter.sendMail\<close>, in order, and the outcome of the
  promise: the error it rejects with, or, when it resolves, what the callback of the
  second call does. The second call is not awaited, so the promise resolves whatever the
  transport answers to it: an error thrown by the callback is thrown outside of the
  promise.
\<close>

definition sendReminderEmail ::
  "mailer \<Rightarrow> timestamp \<Rightarrow> string option \<Rightarrow> string option \<Rightarrow> subscription option
     \<Rightarrow> sendMailArg list \<times> (js_error + callback)" where
  "sendReminderEmail m now to type sub =
     (if falsy to \<or> falsy type \<or> sub = None then ([], Inl MissingRequiredFields)
      else case (to, type, sub) of
        (Some to', Some type', Some subscription) \<Rightarrow>
          (case find (\<lambda>t. label t = type') (emailTemplates m) of
             None \<Rightarrow> ([], Inl InvalidTemplateType)
           | Some template \<Rightarrow>
               (case user subscription of
                  None \<Rightarrow> ([], Inl TypeError)
                | Some u \<Rightarrow>
                    let info = \<lparr>userName = username u,
                                subscriptionName = name subscription,
                                renewalDateText =
                                  formatDate m (dayjs now (renewalDate subscription)),
                                planName = name subscription,
                                priceText = currency subscription @ '' '' @ price subscription
                                  @ ''('' @ show_frequency (frequency subscription) @ '')'',
                                paymentMethodText = paymentMethod subscription\<rparr>;
                        emailBody = generateBody template info;
                        emailSubject = generateSubject template info;
                        request = Composed \<lparr>sender = accountEmail, recipient = to',
                                    subject = emailSubject, html = emailBody\<rparr>
                    in case sendMail m now request of
                         Inl e \<Rightarrow> ([request], Inl (TransportFailure e))
                       | Inr mailOptions \<Rightarrow>
                           ([request, Returned mailOptions],
                            Inr (case sendMail m now (Returned mailOptions) of
                                   Inl error \<Rightarrow> Thrown FailedToSendEmail
                                 | Inr info \<Rightarrow> Logged (response info)))))
      | _ \<Rightarrow> ([], Inl MissingRequiredFields))"

section \<open>The reminder workflow\<close>

text \<open>
  The handler runs on a durable-execution host (the package \<^verbatim>\<open>@upstash/workflow\<close>), which
  is not part of the sources. The handler is therefore written as a program over the
  host's two primitives, \<^verbatim>\<open>context.run\<close> and \<^verbatim>\<open>context.sleepUntil\<close>, and over
  \<^verbatim>\<open>dayjs()\<close>, the clock, which the source reads outside of any step.
\<close>

type_synonym subscriptionId = string

datatype stepBody =
    FindSubscription subscriptionId
  | SendReminder string subscription

datatype stepValue = SubscriptionValue "subscription option" | Undefined

datatype workflow =
    Return
  | Run string stepBody "stepValue \<Rightarrow> workflow"
  | SleepUntil string timestamp workflow
  | Now "timestamp \<Rightarrow> workflow"

text \<open>Decimal digits of a number, as a template literal prints it.\<close>

fun digits :: "nat \<Rightarrow> string" where
  "digits n =
     (if n < 10 then [''0123456789'' ! n]
      else digits (n div 10) @ [''0123456789'' ! (n mod 10)])"

declare digits.simps [simp del]

definition reminders :: "nat list" where
  "reminders = [7, 5, 3, 1]"

definition sleepLabel :: "nat \<Rightarrow> string" where
  "sleepLabel daysBefore = ''Reminder '' @ digits daysBefore @ '' days before''"

definition triggerLabel :: "nat \<Rightarrow> string" where
  "triggerLabel daysBefore = digits daysBefore @ '' days before reminder''"

definition fetchSubscription :: "subscriptionId \<Rightarrow> (stepValue \<Rightarrow> workflow) \<Rightarrow> workflow" where
  "fetchSubscription subscriptionId k =
     Run ''get subscription'' (FindSubscription subscriptionId) k"

definition sleepUntilReminder :: "string \<Rightarrow> timestamp \<Rightarrow> workflow \<Rightarrow> workflow" where
  "sleepUntilReminder lbl date k = SleepUntil lbl date k"

definition triggerReminder :: "string \<Rightarrow> subscription \<Rightarrow> workflow \<Rightarrow> workflow" where
  "triggerReminder lbl subscription k = Run lbl (SendReminder lbl subscription) (\<lambda>_. k)"

text \<open>The \<^verbatim>\<open>for\<close> loop of the handler over the thresholds that remain.\<close>

primrec remindersLoop :: "subscription \<Rightarrow> timestamp \<Rightarrow> nat list \<Rightarrow> workflow" where
  "remindersLoop subscription renewal [] = Return"
| "remindersLoop subscription renewal (daysBefore # rest) =
     (let reminderDate = subtractDays renewal daysBefore;
          send = Now (\<lambda>now.
            if isSameDay now reminderDate
            then triggerReminder (triggerLabel daysBefore) subscription
                   (remindersLoop subscription renewal rest)
            else remindersLoop subscription renewal rest)
      in Now (\<lambda>now.
           if isAfter reminderDate now
           then sleepUntilReminder (sleepLabel daysBefore) reminderDate send
           else send))"

definition sendReminders :: "subscriptionId \<Rightarrow> workflow" where
  "sendReminders subscriptionId =
     fetchSubscription subscriptionId (\<lambda>v.
       case v of
         SubscriptionValue (Some subscription) \<Rightarrow>
           if status subscription \<noteq> Active then Return
           else Now (\<lambda>now.
             let renewal = dayjs now (renewalDate subscription)
             in if isBefore renewal now then Return
                else remindersLoop subscription renewal reminders)
       | _ \<Rightarrow> Return)"

subsection \<open>The host\<close>

text \<open>Modelled from the spec: the host is missing from the sources. The specification
  gives its primitives these semantics: \<^verbatim>\<open>runStep(name, fn)\<close> is durable and memoised,
  with at most one execution of \<open>fn\<close> per name within a run; \<^verbatim>\<open>sleepUntil(name, date)\<close>
  is a durable suspension until \<open>date\<close>; completed steps are kept in a set keyed by the
  step name, and re-entering the run replays completed steps without running their side
  effects and resumes at the next pending step. So one execution of the handler at time
  \<open>now\<close> against the steps recorded so far ends, or reaches the first step that is not
  recorded; the clock is read anew in every execution.\<close>

datatype pending =
    Finished
  | PendingRun string stepBody
  | PendingSleep string timestamp

primrec replay :: "(string \<rightharpoonup> stepValue) \<Rightarrow> timestamp \<Rightarrow> workflow \<Rightarrow> pending" where
  "replay steps now Return = Finished"
| "replay steps now (Run lbl body k) =
     (case steps lbl of
        Some v \<Rightarrow> replay steps now (k v)
      | None \<Rightarrow> PendingRun lbl body)"
| "replay steps now (SleepUntil lbl date k) =
     (case steps lbl of
        Some v \<Rightarrow> replay steps now k
      | None \<Rightarrow> PendingSleep lbl date)"
| "replay steps now (Now k) = replay steps now (k now)"

text \<open>A call to the subscription collection: the read of the workflow,
  \<^verbatim>\<open>findById(id).populate(path, select)\<close>, or a write of a document.\<close>

datatype dbOp = FindByIdPopulate subscriptionId string string | Save subscription

datatype runStatus = Running | Completed | RunFailed js_error

text \<open>The world of a run: the mail module's collaborators and the subscription
  collection, whose content may change in time (what \<^verbatim>\<open>findById(id).populate(...)\<close>
  finds at a time).\<close>

record env =
  mail :: mailer
  store :: "timestamp \<Rightarrow> subscriptionId \<Rightarrow> subscription option"

text \<open>The state of one workflow run: the recorded steps, the clock, every call made to
  the mail transport so far (with its time and the name of the step that made it), every
  call made to the collection so far (with its time), the retries the host has left for
  a failing step, and the status of the run.\<close>

record run =
  steps :: "string \<rightharpoonup> stepValue"
  clock :: timestamp
  outbox :: "(timestamp \<times> string \<times> sendMailArg) list"
  dbLog :: "(timestamp \<times> dbOp) list"
  retriesLeft :: nat
  outcome :: runStatus

text \<open>Modelled from the spec: the host's retry policy is missing from the sources. A
  failing step is handed to the host's retry mechanism; once the configured retries are
  used up, the failure ends the step and the run as failed.\<close>

definition stepFailed :: "js_error \<Rightarrow> run \<Rightarrow> run" where
  "stepFailed e r =
     (if retriesLeft r = 0 then r\<lparr>outcome := RunFailed e\<rparr>
      else r\<lparr>retriesLeft := retriesLeft r - 1\<rparr>)"

text \<open>Running the body of a step that is not recorded yet. The step of a reminder fails
  when the promise of \<open>sendReminderEmail\<close> rejects and is recorded when it resolves; what
  the callback of the second call does is outside of the promise and does not reach the
  step.\<close>

fun runStep :: "env \<Rightarrow> string \<Rightarrow> stepBody \<Rightarrow> run \<Rightarrow> run" where
  "runStep w lbl (FindSubscription subscriptionId) r =
     r\<lparr>steps := (steps r)(lbl \<mapsto> SubscriptionValue (store w (clock r) subscriptionId)),
       dbLog := dbLog r @ [(clock r, FindByIdPopulate subscriptionId ''user'' ''name email'')]\<rparr>"
| "runStep w lbl (SendReminder type subscription) r =
     (case user subscription of
        None \<Rightarrow> stepFailed TypeError r
      | Some u \<Rightarrow>
          (case sendReminderEmail (mail w) (clock r) (email u) (Some type) (Some subscription) of
             (calls, Inl e) \<Rightarrow>
               stepFailed e (r\<lparr>outbox := outbox r @ map (\<lambda>c. (clock r, lbl, c)) calls\<rparr>)
           | (calls, Inr _) \<Rightarrow>
               r\<lparr>steps := (steps r)(lbl \<mapsto> Undefined),
                 outbox := outbox r @ map (\<lambda>c. (clock r, lbl, c)) calls\<rparr>))"

text \<open>Modelled from the spec: one invocation of the endpoint by the host. The handler is
  executed at the run's clock; a pending step is carried out and its result recorded, a
  pending sleep is recorded and the run is parked until its date.\<close>

definition invoke :: "env \<Rightarrow> subscriptionId \<Rightarrow> run \<Rightarrow> run" where
  "invoke w subscriptionId r =
     (case replay (steps r) (clock r) (sendReminders subscriptionId) of
        Finished \<Rightarrow> r\<lparr>outcome := Completed\<rparr>
      | PendingRun lbl body \<Rightarrow> runStep w lbl body r
      | PendingSleep lbl date \<Rightarrow>
          r\<lparr>steps := (steps r)(lbl \<mapsto> Undefined), clock := max (clock r) date\<rparr>)"

text \<open>Modelled from the spec: the host invokes the endpoint until the run has ended.
  Each invocation is followed by a delay in milliseconds, taken from the list: the time
  the host takes to deliver the next invocation. A run whose list is used up is one the
  host has not resumed yet.\<close>

fun host :: "env \<Rightarrow> subscriptionId \<Rightarrow> nat list \<Rightarrow> run \<Rightarrow> run" where
  "host w subscriptionId [] r = r"
| "host w subscriptionId (d # ds) r =
     (if outcome r \<noteq> Running then r
      else let r' = invoke w subscriptionId r
           in host w subscriptionId ds (r'\<lparr>clock := clock r' + int d\<rparr>))"

text \<open>\<^verbatim>\<open>WorkflowClient.trigger\<close> as \<^verbatim>\<open>createSubscription\<close> calls it, at time \<open>now\<close>:
  a fresh run with \<^verbatim>\<open>retries: 0\<close>.\<close>

definition trigger :: "timestamp \<Rightarrow> run" where
  "trigger now =
     \<lparr>steps = Map.empty, clock = now, outbox = [], dbLog = [], retriesLeft = 0,
      outcome = Running\<rparr>"

definition workflowRun :: "env \<Rightarrow> subscriptionId \<Rightarrow> timestamp \<Rightarrow> nat list \<Rightarrow> run" where
  "workflowRun w subscriptionId start delays = host w subscriptionId delays (trigger start)"

subsection \<open>Observations on a run\<close>

text \<open>The reminder messages of a run: the calls of the mail transport that carry a
  message composed from a template.\<close>

fun isComposed :: "sendMailArg \<Rightarrow> bool" where
  "isComposed (Composed _) = True"
| "isComposed (Returned _) = False"

definition reminderEmails :: "run \<Rightarrow> (timestamp \<times> string \<times> sendMailArg) list" where
  "reminderEmails r = filter (\<lambda>c. isComposed (snd (snd c))) (outbox r)"

text \<open>The calls of the mail transport that a step made.\<close>

definition sendsOfStep :: "string \<Rightarrow> run \<Rightarrow> (timestamp \<times> string \<times> sendMailArg) list" where
  "sendsOfStep lbl r = filter (\<lambda>c. fst (snd c) = lbl) (outbox r)"

text \<open>A summary of a call of the mail transport made by a run: the calendar day of the
  call and the step that made it.\<close>

definition callDay :: "timestamp \<times> string \<times> sendMailArg \<Rightarrow> int \<times> string" where
  "callDay c = (dayOf (fst c), fst (snd c))"

text \<open>The message that template \<open>t\<close> renders for subscription \<open>s\<close> of user \<open>u\<close>,
  addressed to \<open>addr\<close>, with renewal date \<open>d\<close>.\<close>

definition reminderMail ::
  "mailer \<Rightarrow> template \<Rightarrow> subscription \<Rightarrow> user \<Rightarrow> string \<Rightarrow> timestamp \<Rightarrow> sendMailArg" where
  "reminderMail m t s u addr d =
     (let info = \<lparr>userName = username u, subscriptionName = name s,
                  renewalDateText = formatDate m d, planName = name s,
                  priceText = currency s @ '' '' @ price s @ ''(''
                    @ show_frequency (frequency s) @ '')'',
                  paymentMethodText = paymentMethod s\<rparr>
      in Composed \<lparr>sender = accountEmail, recipient = addr,
           subject = generateSubject t info, html = generateBody t info\<rparr>)"

subsection \<open>A concrete world\<close>

text \<open>A subscription renewing on 2024-02-15 00:00 UTC, four templates labelled after the
  thresholds, and a transport that accepts every message.\<close>

definition demoTemplate :: "nat \<Rightarrow> template" where
  "demoTemplate n =
     \<lparr>label = triggerLabel n,
      generateSubject = (\<lambda>i. subscriptionName i @ '' renews in '' @ digits n @ '' days''),
      generateBody = (\<lambda>i. renewalDateText i)\<rparr>"

definition demoMailer :: mailer where
  "demoMailer =
     \<lparr>emailTemplates = map demoTemplate [7, 5, 3, 1],
      formatDate = (\<lambda>t. ''Feb 15, 2024''),
      sendMail = (\<lambda>t a. Inr \<lparr>accepted = [''ann@example.org''], response = ''250 OK''\<rparr>)\<rparr>"

definition demoUser :: user where
  "demoUser = \<lparr>username = None, email = Some ''ann@example.org''\<rparr>"

definition demoSubscription :: subscription where
  "demoSubscription =
     \<lparr>name = ''Netflix'', price = ''15.99'', frequency = Monthly, currency = ''USD'',
      category = ''Streaming'', paymentMethod = ''Card'', status = Active,
      startDate = 1705276800000, renewalDate = Some 1707955200000, user = Some demoUser\<rparr>"

definition demoEnv :: env where
  "demoEnv =
     \<lparr>mail = demoMailer,
      store = (\<lambda>t i. if i = ''s1'' then Some demoSubscription else None)\<rparr>"

text \<open>The same world with a collection in which the subscription is cancelled right
  after time \<open>t0\<close>.\<close>

definition cancelledAfter :: "timestamp \<Rightarrow> env" where
  "cancelledAfter t0 =
     \<lparr>mail = demoMailer,
      store = (\<lambda>t i. if i = ''s1''
                 then Some (if t \<le> t0 then demoSubscription
                            else demoSubscription\<lparr>status := Cancelled\<rparr>)
                 else None)\<rparr>"

text \<open>The same world with a transport that refuses every message from time \<open>t0\<close> on.\<close>

definition refusingFrom :: "timestamp \<Rightarrow> env" where
  "refusingFrom t0 =
     \<lparr>mail = demoMailer\<lparr>sendMail := (\<lambda>t a.
         if t < t0 then Inr \<lparr>accepted = [''ann@example.org''], response = ''250 OK''\<rparr>
         else Inl ''550 rejected'')\<rparr>,
      store = (\<lambda>t i. if i = ''s1'' then Some demoSubscription else None)\<rparr>"

text \<open>The same world with a transport that accepts the composed message and answers the
  second call, the one that is given the returned object, with an error.\<close>

definition refusingReturned :: env where
  "refusingReturned =
     \<lparr>mail = demoMailer\<lparr>sendMail := (\<lambda>t a.
         case a of
           Composed options \<Rightarrow>
             Inr \<lparr>accepted = [''ann@example.org''], response = ''250 OK''\<rparr>
         | Returned info \<Rightarrow> Inl ''550 rejected'')\<rparr>,
      store = (\<lambda>t i. if i = ''s1'' then Some demoSubscription else None)\<rparr>"

text \<open>The same world with a subscription that renews at 23:59:59.999 UTC of
  2024-02-15.\<close>

definition lateSubscription :: subscription where
  "lateSubscription = demoSubscription\<lparr>renewalDate := Some 1708041599999\<rparr>"

definition lateEnv :: env where
  "lateEnv =
     \<lparr>mail = demoMailer,
      store = (\<lambda>t i. if i = ''s1'' then Some lateSubscription else None)\<rparr>"

section \<open>Evaluation rules\<close>

lemma digits_small:
  "digits 7 = ''7''" "digits 5 = ''5''" "digits 3 = ''3''" "digits 1 = ''1''"
  "digits (Suc 0) = ''1''"
  by (simp_all add: digits.simps)

lemmas demo_defs =
  demoEnv_def demoMailer_def demoTemplate_def demoSubscription_def demoUser_def
  cancelledAfter_def refusingFrom_def refusingReturned_def lateSubscription_def lateEnv_def

section \<open>Properties of the save hook\<close>

text \<open>
  C9. Every save sets an unset renewal date to the start date plus the period of the
  frequency (1, 7, 30 or 365 days), leaves a set one as it is, forces the status to
  expired when the resulting renewal date is earlier than the current time, and so never
  returns an active subscription whose renewal date is already past.
\<close>

theorem preSave_establishes:
  "(renewalDate s = None \<longrightarrow>
      renewalDate (preSave now s) =
        Some (startDate s +
          (case frequency s of Daily \<Rightarrow> 1 | Weekly \<Rightarrow> 7 | Monthly \<Rightarrow> 30 | Yearly \<Rightarrow> 365)
            * msPerDay)) \<and>
   (\<forall>d. renewalDate s = Some d \<longrightarrow> renewalDate (preSave now s) = Some d) \<and>
   (\<forall>d. renewalDate (preSave now s) = Some d \<and> d < now \<longrightarrow>
      status (preSave now s) = Expired) \<and>
   \<not> (status (preSave now s) = Active \<and>
      (\<exists>d. renewalDate (preSave now s) = Some d \<and> d < now))"
  by (auto simp: preSave_def renewalPeriods_def Let_def
      split: option.splits frequency.splits)

theorem preSave_establishes_witness:
  "renewalDate (preSave 5000000000
      \<lparr>name = ''Netflix'', price = ''15.99'', frequency = Monthly, currency = ''USD'',
       category = ''Streaming'', paymentMethod = ''Card'', status = Active,
       startDate = 1000, renewalDate = None, user = None\<rparr>)
     = Some 2592001000 \<and>
   status (preSave 5000000000
      \<lparr>name = ''Netflix'', price = ''15.99'', frequency = Monthly, currency = ''USD'',
       category = ''Streaming'', paymentMethod = ''Card'', status = Active,
       startDate = 1000, renewalDate = None, user = None\<rparr>) = Expired"
  using preSave_establishes [of
      "\<lparr>name = ''Netflix'', price = ''15.99'', frequency = Monthly, currency = ''USD'',
       category = ''Streaming'', paymentMethod = ''Card'', status = Active,
       startDate = 1000, renewalDate = None, user = None\<rparr>" 5000000000]
  by (simp add: msPerDay_def)

section \<open>Properties of the mail module\<close>

text \<open>
  C10. \<open>sendReminderEmail\<close> throws "Missing required fields" whenever the recipient
  address, the type label or the subscription is missing, and "Invalid template type"
  when all three are present and no template carries the type label; in both cases no
  call of the mail transport has been made.
\<close>

theorem sendReminderEmail_rejects:
  "(falsy to \<or> falsy type \<or> sub = None \<longrightarrow>
      sendReminderEmail m now to type sub = ([], Inl MissingRequiredFields)) \<and>
   (\<not> falsy to \<and> sub \<noteq> None \<and> type' \<noteq> [] \<and>
      (\<forall>t \<in> set (emailTemplates m). label t \<noteq> type') \<longrightarrow>
      sendReminderEmail m now to (Some type') sub = ([], Inl InvalidTemplateType))"
proof (intro conjI impI)
  assume "falsy to \<or> falsy type \<or> sub = None"
  then show "sendReminderEmail m now to type sub = ([], Inl MissingRequiredFields)"
    by (simp add: sendReminderEmail_def)
next
  assume a: "\<not> falsy to \<and> sub \<noteq> None \<and> type' \<noteq> [] \<and>
      (\<forall>t \<in> set (emailTemplates m). label t \<noteq> type')"
  then obtain to' subscription where ts: "to = Some to'" "sub = Some subscription"
    by (cases to; cases sub) auto
  from a have "find (\<lambda>t. label t = type') (emailTemplates m) = None"
    by (simp add: find_None_iff)
  with a ts show "sendReminderEmail m now to (Some type') sub = ([], Inl InvalidTemplateType)"
    by (simp add: sendReminderEmail_def)
qed

theorem sendReminderEmail_rejects_witness:
  "sendReminderEmail demoMailer 0 (Some ''ann@example.org'') (Some []) (Some demoSubscription)
     = ([], Inl MissingRequiredFields) \<and>
   sendReminderEmail demoMailer 0 (Some ''ann@example.org'') (Some ''2 days before reminder'')
     (Some demoSubscription) = ([], Inl InvalidTemplateType)"
  using sendReminderEmail_rejects [of "Some ''ann@example.org''" "Some []"
      "Some demoSubscription" demoMailer 0 "''2 days before reminder''"]
  by (simp add: demo_defs triggerLabel_def digits_small)

section \<open>Properties of the workflow\<close>

subsection \<open>Labels and dates\<close>

lemma digits_nonempty: "digits n \<noteq> []"
  by (subst digits.simps) simp

lemma sleepLabel_neq_get: "sleepLabel n \<noteq> ''get subscription''"
  by (simp add: sleepLabel_def)

lemma triggerLabel_neq_get: "triggerLabel n \<noteq> ''get subscription''"
proof
  assume "triggerLabel n = ''get subscription''"
  then have "length (triggerLabel n) = length ''get subscription''" by simp
  then show False using digits_nonempty [of n]
    by (cases "digits n") (simp_all add: triggerLabel_def)
qed

lemmas handler_defs =
  sendReminders_def fetchSubscription_def reminders_def sleepUntilReminder_def
  triggerReminder_def sleepLabel_def triggerLabel_def digits_small Let_def

lemmas run_defs =
  workflowRun_def trigger_def invoke_def handler_defs sendReminderEmail_def stepFailed_def
  isAfter_def isBefore_def isSameDay_def dayOf_def subtractDays_def msPerDay_def
  accountEmail_def show_frequency_def

subsection \<open>Steps and the host\<close>

lemma replay_loop_pending:
  "replay st now (remindersLoop sub rd ns) = p \<Longrightarrow>
     p = Finished \<or>
     (\<exists>n \<in> set ns. p = PendingSleep (sleepLabel n) (subtractDays rd n)) \<or>
     (\<exists>n \<in> set ns. p = PendingRun (triggerLabel n) (SendReminder (triggerLabel n) sub))"
proof (induction ns)
  case Nil
  then show ?case by simp
next
  case (Cons n ns)
  then show ?case
    by (auto simp: Let_def sleepUntilReminder_def triggerReminder_def
        split: if_splits option.splits)
qed

lemma replay_sendReminders_pending:
  "replay st now (sendReminders sid) = p \<Longrightarrow>
     p = Finished \<or> (st ''get subscription'' = None \<and> p = PendingRun ''get subscription'' (FindSubscription sid)) \<or>
     (\<exists>sub rd. st ''get subscription'' = Some (SubscriptionValue (Some sub)) \<and>
        ((\<exists>n \<in> set reminders. p = PendingSleep (sleepLabel n) (subtractDays rd n)) \<or>
        (\<exists>n \<in> set reminders. p = PendingRun (triggerLabel n) (SendReminder (triggerLabel n) sub))))"
  unfolding sendReminders_def fetchSubscription_def
  apply (simp split: option.splits stepValue.splits if_splits add: Let_def)
  using replay_loop_pending apply blast
  done

lemma host_stopped: "outcome r \<noteq> Running \<Longrightarrow> host w sid ds r = r"
  by (cases ds) simp_all

lemma host_append: "host w sid (xs @ ys) r = host w sid ys (host w sid xs r)"
proof (induction xs arbitrary: r)
  case Nil
  then show ?case by simp
next
  case (Cons d xs)
  then show ?case by (simp add: Let_def host_stopped)
qed

lemma host_invariant:
  assumes "P r"
    and "\<And>r d. P r \<Longrightarrow> outcome r = Running \<Longrightarrow>
           P ((invoke w sid r)\<lparr>clock := clock (invoke w sid r) + int d\<rparr>)"
  shows "P (host w sid ds r)"
  using assms(1)
proof (induction ds arbitrary: r)
  case Nil
  then show ?case by simp
next
  case (Cons d ds)
  then show ?case using assms(2) by (simp add: Let_def)
qed

lemma runStep_SendReminder_frame:
  "dbLog (runStep w lbl (SendReminder ty sub) r) = dbLog r \<and>
   clock (runStep w lbl (SendReminder ty sub) r) = clock r \<and>
   retriesLeft (runStep w lbl (SendReminder ty sub) r) \<le> retriesLeft r \<and>
   (lbl \<noteq> k \<longrightarrow> steps (runStep w lbl (SendReminder ty sub) r) k = steps r k)"
  by (simp add: stepFailed_def split: option.splits prod.splits sum.splits)

lemma runStep_SendReminder_env:
  "mail w = mail w' \<Longrightarrow>
   runStep w lbl (SendReminder ty sub) r = runStep w' lbl (SendReminder ty sub) r"
  by (simp split: option.splits)

lemma invoke_fetched:
  assumes "steps r ''get subscription'' = Some v"
  shows "dbLog (invoke w sid r) = dbLog r \<and>
         steps (invoke w sid r) ''get subscription'' = Some v"
proof -
  let ?p = "replay (steps r) (clock r) (sendReminders sid)"
  from replay_sendReminders_pending [OF refl, of "steps r" "clock r" sid] assms
  consider "?p = Finished"
    | n rd where "?p = PendingSleep (sleepLabel n) rd"
    | n sub where "?p = PendingRun (triggerLabel n) (SendReminder (triggerLabel n) sub)"
    by auto
  then show ?thesis
  proof cases
    case 1
    then show ?thesis using assms by (simp add: invoke_def)
  next
    case 2
    then show ?thesis using assms sleepLabel_neq_get [of n]
      by (simp add: invoke_def)
  next
    case 3
    then show ?thesis
      using assms triggerLabel_neq_get [of n]
        runStep_SendReminder_frame [of w "triggerLabel n" "triggerLabel n" sub r]
      by (simp add: invoke_def)
  qed
qed

lemma invoke_env:
  assumes "steps r ''get subscription'' = Some v" and "mail w = mail w'"
  shows "invoke w sid r = invoke w' sid r"
proof -
  let ?p = "replay (steps r) (clock r) (sendReminders sid)"
  from replay_sendReminders_pending [OF refl, of "steps r" "clock r" sid] assms(1)
  consider "?p = Finished" | l d where "?p = PendingSleep l d"
    | l ty sub where "?p = PendingRun l (SendReminder ty sub)"
    by auto
  then show ?thesis
    using runStep_SendReminder_env [OF assms(2)]
    by cases (simp_all add: invoke_def)
qed

lemma host_env:
  assumes "mail w = mail w'"
  shows "steps r ''get subscription'' = Some v \<Longrightarrow> host w sid ds r = host w' sid ds r"
proof (induction ds arbitrary: r)
  case Nil
  then show ?case by simp
next
  case (Cons d ds)
  have "steps ((invoke w' sid r)\<lparr>clock := clock (invoke w' sid r) + int d\<rparr>)
          ''get subscription'' = Some v"
    using invoke_fetched [OF Cons.prems, of w' sid] by simp
  then show ?case
    using Cons.IH invoke_env [OF Cons.prems assms, of sid]
    by (simp add: Let_def)
qed

lemma invoke_trigger:
  "invoke w sid (trigger start) =
     (trigger start)\<lparr>steps := [''get subscription'' \<mapsto> SubscriptionValue (store w start sid)],
       dbLog := [(start, FindByIdPopulate sid ''user'' ''name email'')]\<rparr>"
  by (simp add: invoke_def trigger_def sendReminders_def fetchSubscription_def)

lemma replay_unfetched:
  "replay [''get subscription'' \<mapsto> SubscriptionValue None] now (sendReminders sid) = Finished"
  by (simp add: sendReminders_def fetchSubscription_def)

lemma replay_inactive:
  "status s \<noteq> Active \<Longrightarrow>
   replay [''get subscription'' \<mapsto> SubscriptionValue (Some s)] now (sendReminders sid)
     = Finished"
  by (simp add: sendReminders_def fetchSubscription_def)

lemma replay_expired:
  "renewalDate s = Some D \<Longrightarrow> D < now \<Longrightarrow>
   replay [''get subscription'' \<mapsto> SubscriptionValue (Some s)] now (sendReminders sid)
     = Finished"
  by (simp add: sendReminders_def fetchSubscription_def isBefore_def)

lemma workflowRun_Nil: "workflowRun w sid start [] = trigger start"
  by (simp add: workflowRun_def)

lemma workflowRun_one:
  "workflowRun w sid start [d] =
     (trigger start)\<lparr>steps := [''get subscription'' \<mapsto> SubscriptionValue (store w start sid)],
       dbLog := [(start, FindByIdPopulate sid ''user'' ''name email'')],
       clock := start + int d\<rparr>"
  by (simp add: workflowRun_def Let_def invoke_trigger) (simp add: trigger_def)

lemma workflowRun_finishes_second:
  assumes "replay [''get subscription'' \<mapsto> SubscriptionValue (store w start sid)]
             (start + int d1) (sendReminders sid) = Finished"
  shows "workflowRun w sid start (d1 # d2 # ds) =
     (trigger start)\<lparr>steps := [''get subscription'' \<mapsto> SubscriptionValue (store w start sid)],
       dbLog := [(start, FindByIdPopulate sid ''user'' ''name email'')],
       clock := start + int d1 + int d2, outcome := Completed\<rparr>"
proof -
  have "workflowRun w sid start (d1 # d2 # ds) =
          host w sid (d2 # ds) (workflowRun w sid start [d1])"
    using host_append [of w sid "[d1]" "d2 # ds" "trigger start"]
    by (simp add: workflowRun_def)
  also have "\<dots> = host w sid ds ((trigger start)\<lparr>steps := [''get subscription'' \<mapsto> SubscriptionValue (store w start sid)],
       dbLog := [(start, FindByIdPopulate sid ''user'' ''name email'')],
       clock := start + int d1 + int d2, outcome := Completed\<rparr>)"
    using assms by (simp add: workflowRun_one invoke_def trigger_def)
  finally show ?thesis by (simp add: host_stopped)
qed

subsection \<open>Access to the collection\<close>

text \<open>
  C8. A run touches the collection in one call only, made by the first invocation at the
  start of the run: the read \<^verbatim>\<open>findById(id).populate("user", "name email")\<close>. However
  long the run goes on, no other read and no write is made.
\<close>

theorem single_read:
  "dbLog (workflowRun w sid start (d # ds)) =
     [(start, FindByIdPopulate sid ''user'' ''name email'')]"
proof -
  let ?P = "\<lambda>r. steps r ''get subscription'' = Some (SubscriptionValue (store w start sid)) \<and>
              dbLog r = [(start, FindByIdPopulate sid ''user'' ''name email'')]"
  let ?r1 = "(invoke w sid (trigger start))\<lparr>clock := clock (invoke w sid (trigger start)) + int d\<rparr>"
  have "?P ?r1" by (simp add: invoke_trigger)
  then have "?P (host w sid ds ?r1)"
  proof (rule host_invariant)
    fix r :: run and d :: nat
    assume "?P r"
    then show "?P ((invoke w sid r)\<lparr>clock := clock (invoke w sid r) + int d\<rparr>)"
      using invoke_fetched [of r _ w sid] by simp
  qed
  moreover have "workflowRun w sid start (d # ds) = host w sid ds ?r1"
    by (simp add: workflowRun_def Let_def trigger_def)
  ultimately show ?thesis by simp
qed

theorem single_read_witness:
  "dbLog (workflowRun demoEnv ''s1'' 1707091200000 [0, 0, 0, 0]) =
     [(1707091200000, FindByIdPopulate ''s1'' ''user'' ''name email'')]"
  using single_read [of demoEnv "''s1''" 1707091200000 0 "[0, 0, 0]"] by simp

text \<open>
  C6, as stated, fails: in the world where the subscription is cancelled right after the
  start, the run resumes nine times, reads the collection once, at the start, and sends
  all four reminders.
\<close>

theorem reread_counterexample:
  "store (cancelledAfter 1707091200000) 1707091200001 ''s1''
     = Some (demoSubscription\<lparr>status := Cancelled\<rparr>) \<and>
   dbLog (workflowRun (cancelledAfter 1707091200000) ''s1'' 1707091200000
            [0, 0, 0, 0, 0, 0, 0, 0, 0, 0])
     = [(1707091200000, FindByIdPopulate ''s1'' ''user'' ''name email'')] \<and>
   map (\<lambda>c. (fst c, fst (snd c)))
     (reminderEmails (workflowRun (cancelledAfter 1707091200000) ''s1'' 1707091200000
            [0, 0, 0, 0, 0, 0, 0, 0, 0, 0])) =
   [(1707350400000, ''7 days before reminder''), (1707523200000, ''5 days before reminder''),
    (1707696000000, ''3 days before reminder''), (1707868800000, ''1 days before reminder'')]"
  by (simp add: reminderEmails_def run_defs demo_defs digits.simps)

text \<open>
  C6, as amended. The run depends on the collection only through what the first
  invocation reads: two worlds with the same mail module whose collections agree on the
  subscription at the start of the run give the same run, whatever the collections hold
  later. Every resumption decides on the recorded result of the step "get subscription".
\<close>

theorem snapshot_only:
  assumes "mail w = mail w'" and "store w start sid = store w' start sid"
  shows "workflowRun w sid start ds = workflowRun w' sid start ds"
proof (cases ds)
  case Nil
  then show ?thesis by (simp add: workflowRun_def)
next
  case (Cons d ds')
  have "invoke w sid (trigger start) = invoke w' sid (trigger start)"
    using assms(2) by (simp add: invoke_trigger)
  moreover have "steps ((invoke w' sid (trigger start))
      \<lparr>clock := clock (invoke w' sid (trigger start)) + int d\<rparr>) ''get subscription''
      = Some (SubscriptionValue (store w' start sid))"
    by (simp add: invoke_trigger)
  ultimately show ?thesis
    using Cons host_env [OF assms(1), of _ _ sid ds']
    by (simp add: workflowRun_def Let_def trigger_def)
qed

theorem snapshot_only_witness:
  "workflowRun demoEnv ''s1'' 1707091200000 [0, 0, 0] =
   workflowRun (cancelledAfter 1707091200000) ''s1'' 1707091200000 [0, 0, 0]"
proof -
  have a: "mail demoEnv = mail (cancelledAfter 1707091200000)"
    by (simp add: demoEnv_def cancelledAfter_def)
  have b: "store demoEnv 1707091200000 ''s1'' = store (cancelledAfter 1707091200000) 1707091200000 ''s1''"
    by (simp add: demoEnv_def cancelledAfter_def)
  show ?thesis using snapshot_only [OF a b] by simp
qed

subsection \<open>The guards at the start\<close>

text \<open>
  C4. When the subscription read at the start is absent or its status is not active, the
  run never calls the mail transport, never fails, and is completed by its second
  invocation (the first one records the read).
\<close>

theorem inactive_start_no_reminders:
  assumes "store w start sid = None \<or>
           (\<exists>s. store w start sid = Some s \<and> status s \<noteq> Active)"
  shows "outbox (workflowRun w sid start ds) = [] \<and>
         (\<forall>e. outcome (workflowRun w sid start ds) \<noteq> RunFailed e) \<and>
         (2 \<le> length ds \<longrightarrow> outcome (workflowRun w sid start ds) = Completed)"
proof -
  have fin: "replay [''get subscription'' \<mapsto> SubscriptionValue (store w start sid)]
             (start + int d1) (sendReminders sid) = Finished" for d1
    using assms replay_unfetched replay_inactive by auto
  consider "ds = []" | d where "ds = [d]" | d1 d2 ds' where "ds = d1 # d2 # ds'"
    by (cases ds rule: list.exhaust; cases "tl ds") auto
  then show ?thesis
  proof cases
    case 1
    then show ?thesis by (simp add: workflowRun_Nil trigger_def)
  next
    case 2
    then show ?thesis by (simp add: workflowRun_one trigger_def)
  next
    case 3
    then show ?thesis by (simp add: workflowRun_finishes_second [OF fin] trigger_def)
  qed
qed

theorem inactive_start_no_reminders_witness:
  "outbox (workflowRun demoEnv ''s2'' 1707091200000 [0, 0]) = [] \<and>
   outcome (workflowRun demoEnv ''s2'' 1707091200000 [0, 0]) = Completed"
proof -
  have "store demoEnv 1707091200000 ''s2'' = None \<or>
        (\<exists>s. store demoEnv 1707091200000 ''s2'' = Some s \<and> status s \<noteq> Active)"
    by (simp add: demoEnv_def)
  from inactive_start_no_reminders [OF this, of "[0, 0]"] show ?thesis by simp
qed

text \<open>
  C5. When the renewal date of the subscription read at the start is earlier than the
  time of the start, the run never calls the mail transport and is completed by its
  second invocation.
\<close>

theorem past_renewal_no_reminders:
  assumes "store w start sid = Some s" and "renewalDate s = Some D" and "D < start"
  shows "outbox (workflowRun w sid start ds) = [] \<and>
         (2 \<le> length ds \<longrightarrow> outcome (workflowRun w sid start ds) = Completed)"
proof -
  have fin: "replay [''get subscription'' \<mapsto> SubscriptionValue (store w start sid)]
             (start + int d1) (sendReminders sid) = Finished" for d1
    using assms replay_expired [of s D "start + int d1" sid] by simp
  consider "ds = []" | d where "ds = [d]" | d1 d2 ds' where "ds = d1 # d2 # ds'"
    by (cases ds rule: list.exhaust; cases "tl ds") auto
  then show ?thesis
  proof cases
    case 1
    then show ?thesis by (simp add: workflowRun_Nil trigger_def)
  next
    case 2
    then show ?thesis by (simp add: workflowRun_one trigger_def)
  next
    case 3
    then show ?thesis by (simp add: workflowRun_finishes_second [OF fin] trigger_def)
  qed
qed

theorem past_renewal_no_reminders_witness:
  "outbox (workflowRun demoEnv ''s1'' 1707955200001 [0, 0]) = [] \<and>
   outcome (workflowRun demoEnv ''s1'' 1707955200001 [0, 0]) = Completed"
proof -
  have a: "store demoEnv 1707955200001 ''s1'' = Some demoSubscription"
    by (simp add: demoEnv_def)
  have b: "renewalDate demoSubscription = Some 1707955200000"
    by (simp add: demoSubscription_def)
  have c: "(1707955200000 :: int) < 1707955200001" by simp
  from past_renewal_no_reminders [OF a b c, of "[0, 0]"] show ?thesis by simp
qed

subsection \<open>The schedule of the reminders\<close>

lemma dayOf_window:
  assumes "0 \<le> e" and "e < msPerDay - D mod msPerDay"
  shows "dayOf (D - k * msPerDay + e) = dayOf D - k"
proof -
  have M: "0 < msPerDay" by (simp add: msPerDay_def)
  have eq: "D - k * msPerDay + e = (D div msPerDay - k) * msPerDay + (D mod msPerDay + e)"
    by (simp add: algebra_simps)
  have "0 \<le> D mod msPerDay + e" "D mod msPerDay + e < msPerDay"
    using assms M by simp_all
  then have "((D div msPerDay - k) * msPerDay + (D mod msPerDay + e)) div msPerDay
               = D div msPerDay - k"
    using M by (simp add: div_pos_pos_trivial)
  then have "(D - k * msPerDay + e) div msPerDay = D div msPerDay - k"
    by (simp only: eq)
  then show ?thesis by (simp only: dayOf_def)
qed

lemma host_sleep_step:
  assumes "outcome r = Running"
    and "replay (steps r) (clock r) (sendReminders sid) = PendingSleep l date"
  shows "host w sid (d # ds) r =
           host w sid ds (r\<lparr>steps := (steps r)(l \<mapsto> Undefined),
                            clock := max (clock r) date + int d\<rparr>)"
  using assms by (simp add: invoke_def Let_def)

lemma host_finish_step:
  assumes "outcome r = Running"
    and "replay (steps r) (clock r) (sendReminders sid) = Finished"
  shows "host w sid (d # ds) r = r\<lparr>outcome := Completed, clock := clock r + int d\<rparr>"
  using assms by (simp add: invoke_def Let_def host_stopped)

lemma host_send_step:
  assumes "outcome r = Running"
    and "replay (steps r) (clock r) (sendReminders sid) = PendingRun l (SendReminder ty s)"
    and "user s = Some u"
    and "sendReminderEmail (mail w) (clock r) (email u) (Some ty) (Some s) = (calls, Inr cb)"
  shows "host w sid (d # ds) r =
           host w sid ds (r\<lparr>steps := (steps r)(l \<mapsto> Undefined),
                            outbox := outbox r @ map (\<lambda>c. (clock r, l, c)) calls,
                            clock := clock r + int d\<rparr>)"
  using assms by (simp add: invoke_def Let_def)

lemma sendReminderEmail_accepted:
  assumes "find (\<lambda>t. label t = ty) (emailTemplates m) = Some t"
    and "user s = Some u" and "renewalDate s = Some D" and "addr \<noteq> []" and "ty \<noteq> []"
    and "sendMail m now (reminderMail m t s u addr D) = Inr i"
  shows "sendReminderEmail m now (Some addr) (Some ty) (Some s)
           = ([reminderMail m t s u addr D, Returned i],
              Inr (case sendMail m now (Returned i) of
                     Inl error \<Rightarrow> Thrown FailedToSendEmail
                   | Inr info \<Rightarrow> Logged (response info)))"
  using assms by (simp add: sendReminderEmail_def reminderMail_def Let_def)


lemma replay_skip_done:
  "st l = Some v \<Longrightarrow>
   replay st now (if b then Run l body (\<lambda>_. k) else k) = replay st now k"
  by simp


lemmas replay_defs =
  sendReminders_def fetchSubscription_def reminders_def sleepUntilReminder_def
  triggerReminder_def sleepLabel_def triggerLabel_def digits_small Let_def
  isAfter_def isBefore_def isSameDay_def subtractDays_def replay_skip_done

lemma msPerDay_pos: "0 < msPerDay"
  by (simp add: msPerDay_def)

lemma dayOf_days: "dayOf (D - k * msPerDay) = dayOf D - k"
  using dayOf_window [of 0 D k] msPerDay_pos by simp

lemma replay_sleep7:
  assumes "st ''get subscription'' = Some (SubscriptionValue (Some s))"
    and "status s = Active" "renewalDate s = Some D"
    and "st ''Reminder 7 days before'' = None"
    and "now < D - 7 * msPerDay"
  shows "replay st now (sendReminders sid)
     = PendingSleep ''Reminder 7 days before'' (D - 7 * msPerDay)"
  using assms msPerDay_pos by (simp add: replay_defs)

lemma replay_send7:
  assumes "st ''get subscription'' = Some (SubscriptionValue (Some s))"
    and "status s = Active" "renewalDate s = Some D"
    and "st ''7 days before reminder'' = None"
    and "now = D - 7 * msPerDay + e" "0 \<le> e" "e < msPerDay - D mod msPerDay"
  shows "replay st now (sendReminders sid)
     = PendingRun ''7 days before reminder'' (SendReminder ''7 days before reminder'' s)"
proof -
  have "0 \<le> D mod msPerDay" using msPerDay_pos by simp
  with assms have "e < msPerDay" by linarith
  then show ?thesis
    using assms msPerDay_pos
    by (simp add: replay_defs dayOf_window dayOf_days split: option.splits)
qed

lemma replay_sleep5:
  assumes "st ''get subscription'' = Some (SubscriptionValue (Some s))"
    and "status s = Active" "renewalDate s = Some D"
    and "st ''7 days before reminder'' = Some v7"
    and "st ''Reminder 5 days before'' = None"
    and "D - 7 * msPerDay \<le> now" "now < D - 5 * msPerDay"
  shows "replay st now (sendReminders sid)
     = PendingSleep ''Reminder 5 days before'' (D - 5 * msPerDay)"
  using assms msPerDay_pos by (simp add: replay_defs)


lemma replay_send5:
  assumes "st ''get subscription'' = Some (SubscriptionValue (Some s))"
    and "status s = Active" "renewalDate s = Some D"
    and "st ''5 days before reminder'' = None"
    and "now = D - 5 * msPerDay + e" "0 \<le> e" "e < msPerDay - D mod msPerDay"
  shows "replay st now (sendReminders sid)
     = PendingRun ''5 days before reminder'' (SendReminder ''5 days before reminder'' s)"
proof -
  have "0 \<le> D mod msPerDay" using msPerDay_pos by simp
  with assms have "e < msPerDay" by linarith
  then show ?thesis
    using assms msPerDay_pos
    by (simp add: replay_defs dayOf_window dayOf_days split: option.splits)
qed

lemma replay_sleep3:
  assumes "st ''get subscription'' = Some (SubscriptionValue (Some s))"
    and "status s = Active" "renewalDate s = Some D"
    and "st ''7 days before reminder'' = Some v7" "st ''5 days before reminder'' = Some v5"
    and "st ''Reminder 3 days before'' = None"
    and "D - 5 * msPerDay \<le> now" "now < D - 3 * msPerDay"
  shows "replay st now (sendReminders sid)
     = PendingSleep ''Reminder 3 days before'' (D - 3 * msPerDay)"
  using assms msPerDay_pos by (simp add: replay_defs)

lemma replay_send3:
  assumes "st ''get subscription'' = Some (SubscriptionValue (Some s))"
    and "status s = Active" "renewalDate s = Some D"
    and "st ''3 days before reminder'' = None"
    and "now = D - 3 * msPerDay + e" "0 \<le> e" "e < msPerDay - D mod msPerDay"
  shows "replay st now (sendReminders sid)
     = PendingRun ''3 days before reminder'' (SendReminder ''3 days before reminder'' s)"
proof -
  have "0 \<le> D mod msPerDay" using msPerDay_pos by simp
  with assms have "e < msPerDay" by linarith
  then show ?thesis
    using assms msPerDay_pos
    by (simp add: replay_defs dayOf_window dayOf_days split: option.splits)
qed

lemma replay_sleep1:
  assumes "st ''get subscription'' = Some (SubscriptionValue (Some s))"
    and "status s = Active" "renewalDate s = Some D"
    and "st ''7 days before reminder'' = Some v7" "st ''5 days before reminder'' = Some v5"
    and "st ''3 days before reminder'' = Some v3"
    and "st ''Reminder 1 days before'' = None"
    and "D - 3 * msPerDay \<le> now" "now < D - 1 * msPerDay"
  shows "replay st now (sendReminders sid)
     = PendingSleep ''Reminder 1 days before'' (D - 1 * msPerDay)"
  using assms msPerDay_pos by (simp add: replay_defs)

lemma replay_send1:
  assumes "st ''get subscription'' = Some (SubscriptionValue (Some s))"
    and "status s = Active" "renewalDate s = Some D"
    and "st ''1 days before reminder'' = None"
    and "now = D - 1 * msPerDay + e" "0 \<le> e" "e < msPerDay - D mod msPerDay"
  shows "replay st now (sendReminders sid)
     = PendingRun ''1 days before reminder'' (SendReminder ''1 days before reminder'' s)"
proof -
  have "0 \<le> D mod msPerDay" using msPerDay_pos by simp
  with assms have "e < msPerDay" by linarith
  then show ?thesis
    using assms msPerDay_pos dayOf_window [of e D 1] dayOf_days [of D 1]
    by (simp add: replay_defs dayOf_days split: option.splits)
qed

lemma replay_finished:
  assumes "st ''get subscription'' = Some (SubscriptionValue (Some s))"
    and "status s = Active" "renewalDate s = Some D"
    and "st ''7 days before reminder'' = Some v7" "st ''5 days before reminder'' = Some v5"
    and "st ''3 days before reminder'' = Some v3" "st ''1 days before reminder'' = Some v1"
    and "D - 1 * msPerDay \<le> now"
  shows "replay st now (sendReminders sid) = Finished"
proof (cases "D < now")
  case True
  then show ?thesis using assms by (simp add: replay_defs)
next
  case False
  then show ?thesis using assms msPerDay_pos by (simp add: replay_defs)
qed


lemma host_reminder_step:
  assumes "outcome r = Running"
    and "replay (steps r) (clock r) (sendReminders sid) = PendingRun l (SendReminder l s)"
    and "user s = Some u" "email u = Some addr" "addr \<noteq> []" "l \<noteq> []"
    and "renewalDate s = Some D"
    and "find (\<lambda>t. label t = l) (emailTemplates (mail w)) = Some t"
    and "sendMail (mail w) (clock r) (reminderMail (mail w) t s u addr D) = Inr i"
  shows "host w sid (d # ds) r =
           host w sid ds (r\<lparr>steps := (steps r)(l \<mapsto> Undefined),
              outbox := outbox r @ [(clock r, l, reminderMail (mail w) t s u addr D),
                                    (clock r, l, Returned i)],
              clock := clock r + int d\<rparr>)"
proof -
  have "sendReminderEmail (mail w) (clock r) (email u) (Some l) (Some s)
          = ([reminderMail (mail w) t s u addr D, Returned i],
             Inr (case sendMail (mail w) (clock r) (Returned i) of
                    Inl error \<Rightarrow> Thrown FailedToSendEmail
                  | Inr info \<Rightarrow> Logged (response info)))"
    using assms sendReminderEmail_accepted [of l "mail w" t s u D addr "clock r" i] by simp
  from host_send_step [OF assms(1) assms(2) assms(3) this, of d ds] show ?thesis by simp
qed

lemma stage1:
  assumes sub: "status s = Active" "renewalDate s = Some D"
    and usr: "user s = Some u" "email u = Some addr" "addr \<noteq> []"
    and tpl: "find (\<lambda>t. label t = ''1 days before reminder'') (emailTemplates (mail w)) = Some t1"
    and ok: "\<forall>t a. \<exists>i. sendMail (mail w) t a = Inr i"
    and r: "outcome r = Running"
      "steps r ''get subscription'' = Some (SubscriptionValue (Some s))"
      "steps r ''7 days before reminder'' = Some v7"
      "steps r ''5 days before reminder'' = Some v5"
      "steps r ''3 days before reminder'' = Some v3"
      "steps r ''Reminder 1 days before'' = None"
      "steps r ''1 days before reminder'' = None"
    and clk: "D - 3 * msPerDay \<le> clock r" "clock r < D - 1 * msPerDay"
    and dl: "int da < msPerDay - D mod msPerDay"
  shows "outcome (host w sid (da # db # dc # ds) r) = Completed \<and>
         map (\<lambda>c. (dayOf (fst c), snd c)) (reminderEmails (host w sid (da # db # dc # ds) r)) =
           map (\<lambda>c. (dayOf (fst c), snd c)) (reminderEmails r) @
           [(dayOf D - 1, ''1 days before reminder'', reminderMail (mail w) t1 s u addr D)] \<and>
         map callDay (outbox (host w sid (da # db # dc # ds) r)) =
           map callDay (outbox r) @
           [(dayOf D - 1, ''1 days before reminder''),
            (dayOf D - 1, ''1 days before reminder'')]"
proof -
  let ?c = "D - 1 * msPerDay + int da"
  let ?r1 = "r\<lparr>steps := (steps r)(''Reminder 1 days before'' \<mapsto> Undefined),
               clock := max (clock r) (D - 1 * msPerDay) + int da\<rparr>"
  have c1: "clock ?r1 = ?c" using clk by simp
  have h1: "host w sid (da # db # dc # ds) r = host w sid (db # dc # ds) ?r1"
    by (rule host_sleep_step [OF r(1) replay_sleep1 [OF r(2) sub r(3,4,5,6) clk]])
  from ok obtain i where i: "sendMail (mail w) ?c (reminderMail (mail w) t1 s u addr D) = Inr i"
    by blast
  let ?r2 = "?r1\<lparr>steps := (steps ?r1)(''1 days before reminder'' \<mapsto> Undefined),
              outbox := outbox ?r1 @ [(clock ?r1, ''1 days before reminder'', reminderMail (mail w) t1 s u addr D),
                                    (clock ?r1, ''1 days before reminder'', Returned i)],
              clock := clock ?r1 + int db\<rparr>"
  have p2: "replay (steps ?r1) (clock ?r1) (sendReminders sid)
     = PendingRun ''1 days before reminder'' (SendReminder ''1 days before reminder'' s)"
    using r sub dl c1 by (intro replay_send1 [where e = "int da" and D = D]) simp_all
  have h2: "host w sid (db # dc # ds) ?r1 = host w sid (dc # ds) ?r2"
    using r(1) p2 usr sub(2) tpl i c1
    by (intro host_reminder_step [where u = u and addr = addr and D = D and t = t1 and i = i]) simp_all
  have p3: "replay (steps ?r2) (clock ?r2) (sendReminders sid) = Finished"
    using r sub c1
    by (intro replay_finished [where s = s and D = D]) simp_all
  have h3: "host w sid (dc # ds) ?r2 = ?r2\<lparr>outcome := Completed, clock := clock ?r2 + int dc\<rparr>"
    using r(1) p3 by (intro host_finish_step) simp_all
  have day: "dayOf ?c = dayOf D - 1"
    using dayOf_window [of "int da" D 1] dl by simp
  show ?thesis
    unfolding h1 h2 h3 using day c1
    by (simp add: reminderEmails_def reminderMail_def Let_def callDay_def)
qed


lemma stage3:
  assumes sub: "status s = Active" "renewalDate s = Some D"
    and usr: "user s = Some u" "email u = Some addr" "addr \<noteq> []"
    and tpl: "find (\<lambda>t. label t = ''3 days before reminder'') (emailTemplates (mail w)) = Some t3"
      "find (\<lambda>t. label t = ''1 days before reminder'') (emailTemplates (mail w)) = Some t1"
    and ok: "\<forall>t a. \<exists>i. sendMail (mail w) t a = Inr i"
    and r: "outcome r = Running"
      "steps r ''get subscription'' = Some (SubscriptionValue (Some s))"
      "steps r ''7 days before reminder'' = Some v7"
      "steps r ''5 days before reminder'' = Some v5"
      "steps r ''Reminder 3 days before'' = None"
      "steps r ''3 days before reminder'' = None"
      "steps r ''Reminder 1 days before'' = None"
      "steps r ''1 days before reminder'' = None"
    and clk: "D - 5 * msPerDay \<le> clock r" "clock r < D - 3 * msPerDay"
    and dl: "int d1 < msPerDay - D mod msPerDay" "int d2 < msPerDay - D mod msPerDay" "int d3 < msPerDay - D mod msPerDay" "int d4 < msPerDay - D mod msPerDay"
  shows "outcome (host w sid (d1 # d2 # d3 # d4 # d5 # ds) r) = Completed \<and>
         map (\<lambda>c. (dayOf (fst c), snd c)) (reminderEmails (host w sid (d1 # d2 # d3 # d4 # d5 # ds) r)) =
           map (\<lambda>c. (dayOf (fst c), snd c)) (reminderEmails r) @
           [(dayOf D - 3, ''3 days before reminder'', reminderMail (mail w) t3 s u addr D),
            (dayOf D - 1, ''1 days before reminder'', reminderMail (mail w) t1 s u addr D)] \<and>
         map callDay (outbox (host w sid (d1 # d2 # d3 # d4 # d5 # ds) r)) =
           map callDay (outbox r) @
           [(dayOf D - 3, ''3 days before reminder''),
            (dayOf D - 3, ''3 days before reminder''),
            (dayOf D - 1, ''1 days before reminder''),
            (dayOf D - 1, ''1 days before reminder'')]"
proof -
  have M: "0 \<le> D mod msPerDay" using msPerDay_pos by simp
  let ?c = "D - 3 * msPerDay + int d1"
  let ?r1 = "r\<lparr>steps := (steps r)(''Reminder 3 days before'' \<mapsto> Undefined),
               clock := max (clock r) (D - 3 * msPerDay) + int d1\<rparr>"
  have c1: "clock ?r1 = ?c" using clk by simp
  have h1: "host w sid (d1 # d2 # d3 # d4 # d5 # ds) r = host w sid (d2 # d3 # d4 # d5 # ds) ?r1"
    by (rule host_sleep_step [OF r(1) replay_sleep3 [OF r(2) sub r(3,4) r(5) clk]])
  from ok obtain i where i: "sendMail (mail w) ?c (reminderMail (mail w) t3 s u addr D) = Inr i"
    by blast
  let ?r2 = "?r1\<lparr>steps := (steps ?r1)(''3 days before reminder'' \<mapsto> Undefined),
              outbox := outbox ?r1 @ [(clock ?r1, ''3 days before reminder'', reminderMail (mail w) t3 s u addr D),
                                    (clock ?r1, ''3 days before reminder'', Returned i)],
              clock := clock ?r1 + int d2\<rparr>"
  have p2: "replay (steps ?r1) (clock ?r1) (sendReminders sid)
     = PendingRun ''3 days before reminder'' (SendReminder ''3 days before reminder'' s)"
    using r sub dl c1 by (intro replay_send3 [where e = "int d1" and D = D]) simp_all
  have h2: "host w sid (d2 # d3 # d4 # d5 # ds) ?r1 = host w sid (d3 # d4 # d5 # ds) ?r2"
    using r(1) p2 usr sub(2) tpl(1) i c1
    by (intro host_reminder_step [where u = u and addr = addr and D = D and t = t3 and i = i]) simp_all
  have day: "dayOf ?c = dayOf D - 3"
    using dayOf_window [of "int d1" D 3] dl by simp
  have e2: "map (\<lambda>c. (dayOf (fst c), snd c)) (reminderEmails ?r2) =
      map (\<lambda>c. (dayOf (fst c), snd c)) (reminderEmails r) @
        [(dayOf D - 3, ''3 days before reminder'', reminderMail (mail w) t3 s u addr D)]"
    using day c1 by (simp add: reminderEmails_def reminderMail_def Let_def)
  have o2: "map callDay (outbox ?r2) =
      map callDay (outbox r) @
        [(dayOf D - 3, ''3 days before reminder''),
         (dayOf D - 3, ''3 days before reminder'')]"
    using day c1 by (simp add: callDay_def)
  have k2: "D - 3 * msPerDay \<le> clock ?r2" "clock ?r2 < D - 1 * msPerDay"
    using c1 dl M by simp_all
  have "outcome (host w sid (d3 # d4 # d5 # ds) ?r2) = Completed \<and>
        map (\<lambda>c. (dayOf (fst c), snd c)) (reminderEmails (host w sid (d3 # d4 # d5 # ds) ?r2)) =
          map (\<lambda>c. (dayOf (fst c), snd c)) (reminderEmails ?r2) @
          [(dayOf D - 1, ''1 days before reminder'', reminderMail (mail w) t1 s u addr D)] \<and>
         map callDay (outbox (host w sid (d3 # d4 # d5 # ds) ?r2)) =
           map callDay (outbox ?r2) @
           [(dayOf D - 1, ''1 days before reminder''),
            (dayOf D - 1, ''1 days before reminder'')]"
    using r sub usr tpl ok dl k2
    by (intro stage1 [where s = s and D = D and u = u and addr = addr]) simp_all
  then show ?thesis
    unfolding h1 h2 e2 o2 by simp
qed

lemma stage5:
  assumes sub: "status s = Active" "renewalDate s = Some D"
    and usr: "user s = Some u" "email u = Some addr" "addr \<noteq> []"
    and tpl: "find (\<lambda>t. label t = ''5 days before reminder'') (emailTemplates (mail w)) = Some t5"
      "find (\<lambda>t. label t = ''3 days before reminder'') (emailTemplates (mail w)) = Some t3"
      "find (\<lambda>t. label t = ''1 days before reminder'') (emailTemplates (mail w)) = Some t1"
    and ok: "\<forall>t a. \<exists>i. sendMail (mail w) t a = Inr i"
    and r: "outcome r = Running"
      "steps r ''get subscription'' = Some (SubscriptionValue (Some s))"
      "steps r ''7 days before reminder'' = Some v7"
      "steps r ''Reminder 5 days before'' = None"
      "steps r ''5 days before reminder'' = None"
      "steps r ''Reminder 3 days before'' = None"
      "steps r ''3 days before reminder'' = None"
      "steps r ''Reminder 1 days before'' = None"
      "steps r ''1 days before reminder'' = None"
    and clk: "D - 7 * msPerDay \<le> clock r" "clock r < D - 5 * msPerDay"
    and dl: "int d1 < msPerDay - D mod msPerDay" "int d2 < msPerDay - D mod msPerDay" "int d3 < msPerDay - D mod msPerDay" "int d4 < msPerDay - D mod msPerDay" "int d5 < msPerDay - D mod msPerDay" "int d6 < msPerDay - D mod msPerDay"
  shows "outcome (host w sid (d1 # d2 # d3 # d4 # d5 # d6 # d7 # ds) r) = Completed \<and>
         map (\<lambda>c. (dayOf (fst c), snd c)) (reminderEmails (host w sid (d1 # d2 # d3 # d4 # d5 # d6 # d7 # ds) r)) =
           map (\<lambda>c. (dayOf (fst c), snd c)) (reminderEmails r) @
           [(dayOf D - 5, ''5 days before reminder'', reminderMail (mail w) t5 s u addr D),
            (dayOf D - 3, ''3 days before reminder'', reminderMail (mail w) t3 s u addr D),
            (dayOf D - 1, ''1 days before reminder'', reminderMail (mail w) t1 s u addr D)] \<and>
         map callDay (outbox (host w sid (d1 # d2 # d3 # d4 # d5 # d6 # d7 # ds) r)) =
           map callDay (outbox r) @
           [(dayOf D - 5, ''5 days before reminder''),
            (dayOf D - 5, ''5 days before reminder''),
            (dayOf D - 3, ''3 days before reminder''),
            (dayOf D - 3, ''3 days before reminder''),
            (dayOf D - 1, ''1 days before reminder''),
            (dayOf D - 1, ''1 days before reminder'')]"
proof -
  have M: "0 \<le> D mod msPerDay" using msPerDay_pos by simp
  let ?c = "D - 5 * msPerDay + int d1"
  let ?r1 = "r\<lparr>steps := (steps r)(''Reminder 5 days before'' \<mapsto> Undefined),
               clock := max (clock r) (D - 5 * msPerDay) + int d1\<rparr>"
  have c1: "clock ?r1 = ?c" using clk by simp
  have h1: "host w sid (d1 # d2 # d3 # d4 # d5 # d6 # d7 # ds) r = host w sid (d2 # d3 # d4 # d5 # d6 # d7 # ds) ?r1"
    by (rule host_sleep_step [OF r(1) replay_sleep5 [OF r(2) sub r(3) r(4) clk]])
  from ok obtain i where i: "sendMail (mail w) ?c (reminderMail (mail w) t5 s u addr D) = Inr i"
    by blast
  let ?r2 = "?r1\<lparr>steps := (steps ?r1)(''5 days before reminder'' \<mapsto> Undefined),
              outbox := outbox ?r1 @ [(clock ?r1, ''5 days before reminder'', reminderMail (mail w) t5 s u addr D),
                                    (clock ?r1, ''5 days before reminder'', Returned i)],
              clock := clock ?r1 + int d2\<rparr>"
  have p2: "replay (steps ?r1) (clock ?r1) (sendReminders sid)
     = PendingRun ''5 days before reminder'' (SendReminder ''5 days before reminder'' s)"
    using r sub dl c1 by (intro replay_send5 [where e = "int d1" and D = D]) simp_all
  have h2: "host w sid (d2 # d3 # d4 # d5 # d6 # d7 # ds) ?r1 = host w sid (d3 # d4 # d5 # d6 # d7 # ds) ?r2"
    using r(1) p2 usr sub(2) tpl(1) i c1
    by (intro host_reminder_step [where u = u and addr = addr and D = D and t = t5 and i = i]) simp_all
  have day: "dayOf ?c = dayOf D - 5"
    using dayOf_window [of "int d1" D 5] dl by simp
  have e2: "map (\<lambda>c. (dayOf (fst c), snd c)) (reminderEmails ?r2) =
      map (\<lambda>c. (dayOf (fst c), snd c)) (reminderEmails r) @
        [(dayOf D - 5, ''5 days before reminder'', reminderMail (mail w) t5 s u addr D)]"
    using day c1 by (simp add: reminderEmails_def reminderMail_def Let_def)
  have o2: "map callDay (outbox ?r2) =
      map callDay (outbox r) @
        [(dayOf D - 5, ''5 days before reminder''),
         (dayOf D - 5, ''5 days before reminder'')]"
    using day c1 by (simp add: callDay_def)
  have k2: "D - 5 * msPerDay \<le> clock ?r2" "clock ?r2 < D - 3 * msPerDay"
    using c1 dl M by simp_all
  have "outcome (host w sid (d3 # d4 # d5 # d6 # d7 # ds) ?r2) = Completed \<and>
        map (\<lambda>c. (dayOf (fst c), snd c)) (reminderEmails (host w sid (d3 # d4 # d5 # d6 # d7 # ds) ?r2)) =
          map (\<lambda>c. (dayOf (fst c), snd c)) (reminderEmails ?r2) @
          [(dayOf D - 3, ''3 days before reminder'', reminderMail (mail w) t3 s u addr D),
           (dayOf D - 1, ''1 days before reminder'', reminderMail (mail w) t1 s u addr D)] \<and>
         map callDay (outbox (host w sid (d3 # d4 # d5 # d6 # d7 # ds) ?r2)) =
           map callDay (outbox ?r2) @
           [(dayOf D - 3, ''3 days before reminder''),
            (dayOf D - 3, ''3 days before reminder''),
            (dayOf D - 1, ''1 days before reminder''),
            (dayOf D - 1, ''1 days before reminder'')]"
    using r sub usr tpl ok dl k2
    by (intro stage3 [where s = s and D = D and u = u and addr = addr]) simp_all
  then show ?thesis
    unfolding h1 h2 e2 o2 by simp
qed



lemma stage7_send:
  assumes sub: "status s = Active" "renewalDate s = Some D"
    and usr: "user s = Some u" "email u = Some addr" "addr \<noteq> []"
    and tpl: "find (\<lambda>t. label t = ''7 days before reminder'') (emailTemplates (mail w)) = Some t7"
      "find (\<lambda>t. label t = ''5 days before reminder'') (emailTemplates (mail w)) = Some t5"
      "find (\<lambda>t. label t = ''3 days before reminder'') (emailTemplates (mail w)) = Some t3"
      "find (\<lambda>t. label t = ''1 days before reminder'') (emailTemplates (mail w)) = Some t1"
    and ok: "\<forall>t a. \<exists>i. sendMail (mail w) t a = Inr i"
    and r: "outcome r = Running"
      "steps r ''get subscription'' = Some (SubscriptionValue (Some s))"
      "steps r ''7 days before reminder'' = None"
      "steps r ''Reminder 5 days before'' = None"
      "steps r ''5 days before reminder'' = None"
      "steps r ''Reminder 3 days before'' = None"
      "steps r ''3 days before reminder'' = None"
      "steps r ''Reminder 1 days before'' = None"
      "steps r ''1 days before reminder'' = None"
    and clk: "D - 7 * msPerDay \<le> clock r" "clock r < D - 7 * msPerDay + (msPerDay - D mod msPerDay)"
    and dl: "int d1 < msPerDay - D mod msPerDay" "int d2 < msPerDay - D mod msPerDay"
      "int d3 < msPerDay - D mod msPerDay" "int d4 < msPerDay - D mod msPerDay"
      "int d5 < msPerDay - D mod msPerDay" "int d6 < msPerDay - D mod msPerDay"
      "int d7 < msPerDay - D mod msPerDay"
  shows "outcome (host w sid (d1 # d2 # d3 # d4 # d5 # d6 # d7 # d8 # ds) r) = Completed \<and>
         map (\<lambda>c. (dayOf (fst c), snd c))
           (reminderEmails (host w sid (d1 # d2 # d3 # d4 # d5 # d6 # d7 # d8 # ds) r)) =
           map (\<lambda>c. (dayOf (fst c), snd c)) (reminderEmails r) @
           [(dayOf D - 7, ''7 days before reminder'', reminderMail (mail w) t7 s u addr D),
            (dayOf D - 5, ''5 days before reminder'', reminderMail (mail w) t5 s u addr D),
            (dayOf D - 3, ''3 days before reminder'', reminderMail (mail w) t3 s u addr D),
            (dayOf D - 1, ''1 days before reminder'', reminderMail (mail w) t1 s u addr D)] \<and>
         map callDay (outbox (host w sid (d1 # d2 # d3 # d4 # d5 # d6 # d7 # d8 # ds) r)) =
           map callDay (outbox r) @
           [(dayOf D - 7, ''7 days before reminder''),
            (dayOf D - 7, ''7 days before reminder''),
            (dayOf D - 5, ''5 days before reminder''),
            (dayOf D - 5, ''5 days before reminder''),
            (dayOf D - 3, ''3 days before reminder''),
            (dayOf D - 3, ''3 days before reminder''),
            (dayOf D - 1, ''1 days before reminder''),
            (dayOf D - 1, ''1 days before reminder'')]"
proof -
  have M: "0 \<le> D mod msPerDay" using msPerDay_pos by simp
  define e where "e = clock r - (D - 7 * msPerDay)"
  have e: "clock r = D - 7 * msPerDay + e" "0 \<le> e" "e < msPerDay - D mod msPerDay"
    using clk by (simp_all add: e_def)
  from ok obtain i where
    i: "sendMail (mail w) (clock r) (reminderMail (mail w) t7 s u addr D) = Inr i"
    by blast
  let ?r2 = "r\<lparr>steps := (steps r)(''7 days before reminder'' \<mapsto> Undefined),
              outbox := outbox r @
                [(clock r, ''7 days before reminder'', reminderMail (mail w) t7 s u addr D),
                 (clock r, ''7 days before reminder'', Returned i)],
              clock := clock r + int d1\<rparr>"
  have p2: "replay (steps r) (clock r) (sendReminders sid)
     = PendingRun ''7 days before reminder'' (SendReminder ''7 days before reminder'' s)"
    by (rule replay_send7 [OF r(2) sub r(3) e])
  have h2: "host w sid (d1 # d2 # d3 # d4 # d5 # d6 # d7 # d8 # ds) r
              = host w sid (d2 # d3 # d4 # d5 # d6 # d7 # d8 # ds) ?r2"
    using r(1) p2 usr sub(2) tpl(1) i
    by (intro host_reminder_step [where u = u and addr = addr and D = D and t = t7 and i = i])
      simp_all
  have day: "dayOf (clock r) = dayOf D - 7"
    using dayOf_window [of e D 7] e by simp
  have e2: "map (\<lambda>c. (dayOf (fst c), snd c)) (reminderEmails ?r2) =
      map (\<lambda>c. (dayOf (fst c), snd c)) (reminderEmails r) @
        [(dayOf D - 7, ''7 days before reminder'', reminderMail (mail w) t7 s u addr D)]"
    using day by (simp add: reminderEmails_def reminderMail_def Let_def)
  have o2: "map callDay (outbox ?r2) =
      map callDay (outbox r) @
        [(dayOf D - 7, ''7 days before reminder''),
         (dayOf D - 7, ''7 days before reminder'')]"
    using day by (simp add: callDay_def)
  have k2: "D - 7 * msPerDay \<le> clock ?r2" "clock ?r2 < D - 5 * msPerDay"
    using e dl M by simp_all
  have "outcome (host w sid (d2 # d3 # d4 # d5 # d6 # d7 # d8 # ds) ?r2) = Completed \<and>
        map (\<lambda>c. (dayOf (fst c), snd c))
          (reminderEmails (host w sid (d2 # d3 # d4 # d5 # d6 # d7 # d8 # ds) ?r2)) =
          map (\<lambda>c. (dayOf (fst c), snd c)) (reminderEmails ?r2) @
          [(dayOf D - 5, ''5 days before reminder'', reminderMail (mail w) t5 s u addr D),
           (dayOf D - 3, ''3 days before reminder'', reminderMail (mail w) t3 s u addr D),
           (dayOf D - 1, ''1 days before reminder'', reminderMail (mail w) t1 s u addr D)] \<and>
         map callDay (outbox (host w sid (d2 # d3 # d4 # d5 # d6 # d7 # d8 # ds) ?r2)) =
           map callDay (outbox ?r2) @
           [(dayOf D - 5, ''5 days before reminder''),
            (dayOf D - 5, ''5 days before reminder''),
            (dayOf D - 3, ''3 days before reminder''),
            (dayOf D - 3, ''3 days before reminder''),
            (dayOf D - 1, ''1 days before reminder''),
            (dayOf D - 1, ''1 days before reminder'')]"
    using r sub usr tpl ok dl k2
    by (intro stage5 [where s = s and D = D and u = u and addr = addr]) simp_all
  then show ?thesis
    unfolding h2 e2 o2 by simp
qed

lemma stage7_sleep:
  assumes sub: "status s = Active" "renewalDate s = Some D"
    and usr: "user s = Some u" "email u = Some addr" "addr \<noteq> []"
    and tpl: "find (\<lambda>t. label t = ''7 days before reminder'') (emailTemplates (mail w)) = Some t7"
      "find (\<lambda>t. label t = ''5 days before reminder'') (emailTemplates (mail w)) = Some t5"
      "find (\<lambda>t. label t = ''3 days before reminder'') (emailTemplates (mail w)) = Some t3"
      "find (\<lambda>t. label t = ''1 days before reminder'') (emailTemplates (mail w)) = Some t1"
    and ok: "\<forall>t a. \<exists>i. sendMail (mail w) t a = Inr i"
    and r: "outcome r = Running"
      "steps r ''get subscription'' = Some (SubscriptionValue (Some s))"
      "steps r ''7 days before reminder'' = None"
      "steps r ''Reminder 5 days before'' = None"
      "steps r ''5 days before reminder'' = None"
      "steps r ''Reminder 3 days before'' = None"
      "steps r ''3 days before reminder'' = None"
      "steps r ''Reminder 1 days before'' = None"
      "steps r ''1 days before reminder'' = None"
      "steps r ''Reminder 7 days before'' = None"
    and clk: "clock r < D - 7 * msPerDay"
    and dl: "int d1 < msPerDay - D mod msPerDay" "int d2 < msPerDay - D mod msPerDay"
      "int d3 < msPerDay - D mod msPerDay" "int d4 < msPerDay - D mod msPerDay"
      "int d5 < msPerDay - D mod msPerDay" "int d6 < msPerDay - D mod msPerDay"
      "int d7 < msPerDay - D mod msPerDay" "int d8 < msPerDay - D mod msPerDay"
  shows "outcome (host w sid (d1 # d2 # d3 # d4 # d5 # d6 # d7 # d8 # d9 # ds) r) = Completed \<and>
         map (\<lambda>c. (dayOf (fst c), snd c))
           (reminderEmails (host w sid (d1 # d2 # d3 # d4 # d5 # d6 # d7 # d8 # d9 # ds) r)) =
           map (\<lambda>c. (dayOf (fst c), snd c)) (reminderEmails r) @
           [(dayOf D - 7, ''7 days before reminder'', reminderMail (mail w) t7 s u addr D),
            (dayOf D - 5, ''5 days before reminder'', reminderMail (mail w) t5 s u addr D),
            (dayOf D - 3, ''3 days before reminder'', reminderMail (mail w) t3 s u addr D),
            (dayOf D - 1, ''1 days before reminder'', reminderMail (mail w) t1 s u addr D)] \<and>
         map callDay (outbox (host w sid (d1 # d2 # d3 # d4 # d5 # d6 # d7 # d8 # d9 # ds) r)) =
           map callDay (outbox r) @
           [(dayOf D - 7, ''7 days before reminder''),
            (dayOf D - 7, ''7 days before reminder''),
            (dayOf D - 5, ''5 days before reminder''),
            (dayOf D - 5, ''5 days before reminder''),
            (dayOf D - 3, ''3 days before reminder''),
            (dayOf D - 3, ''3 days before reminder''),
            (dayOf D - 1, ''1 days before reminder''),
            (dayOf D - 1, ''1 days before reminder'')]"
proof -
  let ?r1 = "r\<lparr>steps := (steps r)(''Reminder 7 days before'' \<mapsto> Undefined),
               clock := max (clock r) (D - 7 * msPerDay) + int d1\<rparr>"
  have c1: "clock ?r1 = D - 7 * msPerDay + int d1" using clk by simp
  have h1: "host w sid (d1 # d2 # d3 # d4 # d5 # d6 # d7 # d8 # d9 # ds) r
              = host w sid (d2 # d3 # d4 # d5 # d6 # d7 # d8 # d9 # ds) ?r1"
    by (rule host_sleep_step [OF r(1) replay_sleep7 [OF r(2) sub r(10) clk]])
  have "outcome (host w sid (d2 # d3 # d4 # d5 # d6 # d7 # d8 # d9 # ds) ?r1) = Completed \<and>
        map (\<lambda>c. (dayOf (fst c), snd c))
          (reminderEmails (host w sid (d2 # d3 # d4 # d5 # d6 # d7 # d8 # d9 # ds) ?r1)) =
          map (\<lambda>c. (dayOf (fst c), snd c)) (reminderEmails ?r1) @
          [(dayOf D - 7, ''7 days before reminder'', reminderMail (mail w) t7 s u addr D),
            (dayOf D - 5, ''5 days before reminder'', reminderMail (mail w) t5 s u addr D),
            (dayOf D - 3, ''3 days before reminder'', reminderMail (mail w) t3 s u addr D),
            (dayOf D - 1, ''1 days before reminder'', reminderMail (mail w) t1 s u addr D)] \<and>
         map callDay (outbox (host w sid (d2 # d3 # d4 # d5 # d6 # d7 # d8 # d9 # ds) ?r1)) =
           map callDay (outbox ?r1) @
           [(dayOf D - 7, ''7 days before reminder''),
            (dayOf D - 7, ''7 days before reminder''),
            (dayOf D - 5, ''5 days before reminder''),
            (dayOf D - 5, ''5 days before reminder''),
            (dayOf D - 3, ''3 days before reminder''),
            (dayOf D - 3, ''3 days before reminder''),
            (dayOf D - 1, ''1 days before reminder''),
            (dayOf D - 1, ''1 days before reminder'')]"
    using r sub usr tpl ok dl c1
    by (intro stage7_send [where s = s and D = D and u = u and addr = addr]) simp_all
  then show ?thesis
    unfolding h1 by (simp add: reminderEmails_def)
qed

lemma ten_delays:
  assumes "10 \<le> length (xs :: nat list)"
  obtains d0 d1 d2 d3 d4 d5 d6 d7 d8 d9 ds
  where "xs = d0 # d1 # d2 # d3 # d4 # d5 # d6 # d7 # d8 # d9 # ds"
proof -
  from assms have "\<exists>d0 d1 d2 d3 d4 d5 d6 d7 d8 d9 ds.
      xs = d0 # d1 # d2 # d3 # d4 # d5 # d6 # d7 # d8 # d9 # ds"
    by (simp add: numeral_eq_Suc Suc_le_length_iff) blast
  then show ?thesis using that by blast
qed

text \<open>
  C1, as stated, fails: the subscription of the concrete world that renews at
  23:59:59.999 is active, its run starts ten days before the renewal and is resumed by
  the host one millisecond after each wake-up time; every wake-up then falls on the day
  after the reminder's day, and the run completes without a single call of the mail
  transport.
\<close>

theorem late_renewal_counterexample:
  "store lateEnv 1707091200000 ''s1'' = Some lateSubscription \<and>
   status lateSubscription = Active \<and>
   renewalDate lateSubscription = Some 1708041599999 \<and>
   1707091200000 < subtractDays 1708041599999 7 \<and>
   outbox (workflowRun lateEnv ''s1'' 1707091200000 [1, 1, 1, 1, 1, 1, 1, 1, 1, 1]) = [] \<and>
   outcome (workflowRun lateEnv ''s1'' 1707091200000 [1, 1, 1, 1, 1, 1, 1, 1, 1, 1])
     = Completed"
  by (simp add: run_defs demo_defs digits.simps)

text \<open>
  C1, as amended. For an active subscription with renewal date \<open>D\<close>, take a run that
  starts before \<open>D\<close> minus 7 days and is resumed promptly: the host delivers at least ten
  invocations, each with a delay that is shorter than the time left from \<open>D\<close>'s time of
  day to midnight (so that no invocation is pushed past the calendar day it is due on).
  In such a run exactly four reminder messages are composed and handed to the mail
  transport: one for each threshold 7, 5, 3, 1, in this order, the one of threshold \<open>n\<close>
  on the calendar day of \<open>D\<close> minus \<open>n\<close> days, by the step labelled with \<open>n\<close>, from the
  template of that label, each once. Every call of the mail transport in the run is made
  by one of these four steps, on the calendar day of its threshold; then the run is
  completed. The mail module's collaborators are assumed to cooperate: the user has an
  address, a template exists for each label, the transport accepts what it is given.
\<close>

theorem full_schedule:
  assumes sub: "store w start sid = Some s" "status s = Active" "renewalDate s = Some D"
    and early: "start < subtractDays D 7"
    and usr: "user s = Some u" "email u = Some addr" "addr \<noteq> []"
    and tpl: "\<forall>n \<in> set reminders.
               find (\<lambda>t. label t = triggerLabel n) (emailTemplates (mail w)) = Some (tpl n)"
    and ok: "\<forall>t a. \<exists>i. sendMail (mail w) t a = Inr i"
    and resumed: "10 \<le> length delays"
    and prompt: "\<forall>d \<in> set delays. int d < msPerDay - D mod msPerDay"
  shows "map (\<lambda>c. (dayOf (fst c), snd c)) (reminderEmails (workflowRun w sid start delays)) =
           [(dayOf D - 7, triggerLabel 7, reminderMail (mail w) (tpl 7) s u addr D),
            (dayOf D - 5, triggerLabel 5, reminderMail (mail w) (tpl 5) s u addr D),
            (dayOf D - 3, triggerLabel 3, reminderMail (mail w) (tpl 3) s u addr D),
            (dayOf D - 1, triggerLabel 1, reminderMail (mail w) (tpl 1) s u addr D)] \<and>
         (\<forall>c \<in> set (outbox (workflowRun w sid start delays)).
            \<exists>n \<in> set reminders. callDay c = (dayOf D - int n, triggerLabel n)) \<and>
         outcome (workflowRun w sid start delays) = Completed"
proof -
  from resumed obtain d0 d1 d2 d3 d4 d5 d6 d7 d8 d9 ds
    where delays: "delays = d0 # d1 # d2 # d3 # d4 # d5 # d6 # d7 # d8 # d9 # ds"
    by (rule ten_delays)
  have t: "find (\<lambda>t. label t = ''7 days before reminder'') (emailTemplates (mail w)) = Some (tpl 7)"
     "find (\<lambda>t. label t = ''5 days before reminder'') (emailTemplates (mail w)) = Some (tpl 5)"
     "find (\<lambda>t. label t = ''3 days before reminder'') (emailTemplates (mail w)) = Some (tpl 3)"
     "find (\<lambda>t. label t = ''1 days before reminder'') (emailTemplates (mail w)) = Some (tpl 1)"
    using tpl by (simp_all add: reminders_def triggerLabel_def digits_small)
  have dl: "int d0 < msPerDay - D mod msPerDay" "int d1 < msPerDay - D mod msPerDay"
    "int d2 < msPerDay - D mod msPerDay" "int d3 < msPerDay - D mod msPerDay"
    "int d4 < msPerDay - D mod msPerDay" "int d5 < msPerDay - D mod msPerDay"
    "int d6 < msPerDay - D mod msPerDay" "int d7 < msPerDay - D mod msPerDay"
    "int d8 < msPerDay - D mod msPerDay" "int d9 < msPerDay - D mod msPerDay"
    using prompt by (simp_all add: delays)
  have e: "start < D - 7 * msPerDay"
    using early by (simp add: subtractDays_def)
  let ?r1 = "(trigger start)\<lparr>steps := [''get subscription'' \<mapsto> SubscriptionValue (Some s)],
       dbLog := [(start, FindByIdPopulate sid ''user'' ''name email'')],
       clock := start + int d0\<rparr>"
  let ?R = "host w sid (d1 # d2 # d3 # d4 # d5 # d6 # d7 # d8 # d9 # ds) ?r1"
  have first: "host w sid [d0] (trigger start) = ?r1"
    using workflowRun_one [of w sid start d0] by (simp only: workflowRun_def sub(1))
  have run: "workflowRun w sid start delays = ?R"
    using host_append [of w sid "[d0]" "d1 # d2 # d3 # d4 # d5 # d6 # d7 # d8 # d9 # ds"
        "trigger start"]
    by (simp only: workflowRun_def delays first append_Cons append_Nil)
  have r1: "outcome ?r1 = Running" "reminderEmails ?r1 = []" "outbox ?r1 = []"
    by (simp_all add: trigger_def reminderEmails_def)
  have labels: "triggerLabel 7 = ''7 days before reminder''"
    "triggerLabel 5 = ''5 days before reminder''" "triggerLabel 3 = ''3 days before reminder''"
    "triggerLabel 1 = ''1 days before reminder''"
    "triggerLabel (Suc 0) = ''1 days before reminder''"
    by (simp_all add: triggerLabel_def digits_small)
  have stages: "outcome (host w sid (d1 # d2 # d3 # d4 # d5 # d6 # d7 # d8 # d9 # ds) ?r1) = Completed \<and>
         map (\<lambda>c. (dayOf (fst c), snd c))
           (reminderEmails (host w sid (d1 # d2 # d3 # d4 # d5 # d6 # d7 # d8 # d9 # ds) ?r1)) =
           map (\<lambda>c. (dayOf (fst c), snd c)) (reminderEmails ?r1) @
           [(dayOf D - 7, ''7 days before reminder'', reminderMail (mail w) (tpl 7) s u addr D),
            (dayOf D - 5, ''5 days before reminder'', reminderMail (mail w) (tpl 5) s u addr D),
            (dayOf D - 3, ''3 days before reminder'', reminderMail (mail w) (tpl 3) s u addr D),
            (dayOf D - 1, ''1 days before reminder'', reminderMail (mail w) (tpl 1) s u addr D)] \<and>
         map callDay (outbox (host w sid (d1 # d2 # d3 # d4 # d5 # d6 # d7 # d8 # d9 # ds) ?r1)) =
           map callDay (outbox ?r1) @
           [(dayOf D - 7, ''7 days before reminder''),
            (dayOf D - 7, ''7 days before reminder''),
            (dayOf D - 5, ''5 days before reminder''),
            (dayOf D - 5, ''5 days before reminder''),
            (dayOf D - 3, ''3 days before reminder''),
            (dayOf D - 3, ''3 days before reminder''),
            (dayOf D - 1, ''1 days before reminder''),
            (dayOf D - 1, ''1 days before reminder'')]"
  proof (cases "clock ?r1 < D - 7 * msPerDay")
    case True
    show ?thesis
      using True sub usr t ok dl
      by (intro stage7_sleep [where s = s and D = D and u = u and addr = addr])
        (simp_all add: trigger_def)
  next
    case False
    show ?thesis
      using False sub usr t ok dl e
      by (intro stage7_send [where s = s and D = D and u = u and addr = addr
            and ?d8.0 = d8 and ds = "d9 # ds"])
        (simp_all add: trigger_def)
  qed
  have calls: "map callDay (outbox ?R) =
           [(dayOf D - 7, ''7 days before reminder''),
            (dayOf D - 7, ''7 days before reminder''),
            (dayOf D - 5, ''5 days before reminder''),
            (dayOf D - 5, ''5 days before reminder''),
            (dayOf D - 3, ''3 days before reminder''),
            (dayOf D - 3, ''3 days before reminder''),
            (dayOf D - 1, ''1 days before reminder''),
            (dayOf D - 1, ''1 days before reminder'')]"
    using stages r1(3) by (simp del: host.simps)
  have "\<exists>n \<in> set reminders. callDay c = (dayOf D - int n, triggerLabel n)"
    if "c \<in> set (outbox ?R)" for c
  proof -
    from that have "callDay c \<in> set (map callDay (outbox ?R))"
      by (simp del: host.simps)
    then show ?thesis
      unfolding calls by (auto simp: reminders_def labels)
  qed
  with stages show ?thesis
    by (simp add: run r1 labels del: host.simps)
qed

theorem full_schedule_witness:
  "map (\<lambda>c. (dayOf (fst c), snd c))
     (reminderEmails (workflowRun demoEnv ''s1'' 1707091200000
        [1000, 2000, 3000, 4000, 5000, 6000, 7000, 8000, 9000, 10000])) =
   [(19761, ''7 days before reminder'',
     Composed \<lparr>sender = ''ratishjain6@gmail.com'', recipient = ''ann@example.org'',
       subject = ''Netflix renews in 7 days'', html = ''Feb 15, 2024''\<rparr>),
    (19763, ''5 days before reminder'',
     Composed \<lparr>sender = ''ratishjain6@gmail.com'', recipient = ''ann@example.org'',
       subject = ''Netflix renews in 5 days'', html = ''Feb 15, 2024''\<rparr>),
    (19765, ''3 days before reminder'',
     Composed \<lparr>sender = ''ratishjain6@gmail.com'', recipient = ''ann@example.org'',
       subject = ''Netflix renews in 3 days'', html = ''Feb 15, 2024''\<rparr>),
    (19767, ''1 days before reminder'',
     Composed \<lparr>sender = ''ratishjain6@gmail.com'', recipient = ''ann@example.org'',
       subject = ''Netflix renews in 1 days'', html = ''Feb 15, 2024''\<rparr>)] \<and>
   outcome (workflowRun demoEnv ''s1'' 1707091200000
        [1000, 2000, 3000, 4000, 5000, 6000, 7000, 8000, 9000, 10000]) = Completed"
proof -
  have a: "store demoEnv 1707091200000 ''s1'' = Some demoSubscription"
    by (simp add: demoEnv_def)
  have b: "status demoSubscription = Active" "renewalDate demoSubscription = Some 1707955200000"
    "user demoSubscription = Some demoUser"
    by (simp_all add: demoSubscription_def)
  have c: "1707091200000 < subtractDays 1707955200000 7"
    by (simp add: subtractDays_def msPerDay_def)
  have d: "email demoUser = Some ''ann@example.org''" "''ann@example.org'' \<noteq> []"
    by (simp_all add: demoUser_def)
  have e: "\<forall>n \<in> set reminders.
      find (\<lambda>t. label t = triggerLabel n) (emailTemplates (mail demoEnv)) = Some (demoTemplate n)"
    by (simp add: reminders_def demo_defs triggerLabel_def digits_small)
  have f: "\<forall>t a. \<exists>i. sendMail (mail demoEnv) t a = Inr i"
    by (simp add: demo_defs)
  have g: "10 \<le> length [1000, 2000, 3000, 4000, 5000, 6000, 7000, 8000, 9000, 10000 :: nat]"
    by simp
  have h: "\<forall>d \<in> set [1000, 2000, 3000, 4000, 5000, 6000, 7000, 8000, 9000, 10000 :: nat].
      int d < msPerDay - 1707955200000 mod msPerDay"
    by (simp add: msPerDay_def)
  from full_schedule [OF a b(1) b(2) c b(3) d e f g h]
  have "map (\<lambda>c. (dayOf (fst c), snd c))
     (reminderEmails (workflowRun demoEnv ''s1'' 1707091200000
        [1000, 2000, 3000, 4000, 5000, 6000, 7000, 8000, 9000, 10000])) =
           [(dayOf 1707955200000 - 7, triggerLabel 7,
             reminderMail (mail demoEnv) (demoTemplate 7) demoSubscription demoUser
               ''ann@example.org'' 1707955200000),
            (dayOf 1707955200000 - 5, triggerLabel 5,
             reminderMail (mail demoEnv) (demoTemplate 5) demoSubscription demoUser
               ''ann@example.org'' 1707955200000),
            (dayOf 1707955200000 - 3, triggerLabel 3,
             reminderMail (mail demoEnv) (demoTemplate 3) demoSubscription demoUser
               ''ann@example.org'' 1707955200000),
            (dayOf 1707955200000 - 1, triggerLabel 1,
             reminderMail (mail demoEnv) (demoTemplate 1) demoSubscription demoUser
               ''ann@example.org'' 1707955200000)]"
    and "outcome (workflowRun demoEnv ''s1'' 1707091200000
        [1000, 2000, 3000, 4000, 5000, 6000, 7000, 8000, 9000, 10000]) = Completed"
    by blast+
  then show ?thesis
    by (simp add: dayOf_def msPerDay_def triggerLabel_def digits_small reminderMail_def
        demo_defs accountEmail_def show_frequency_def digits.simps)
qed

text \<open>
  C2. The step "7 days before reminder" of the run of the concrete world calls the mail
  transport twice: with the message it composed, and again with the object the first
  call returned.
\<close>

theorem double_send:
  "sendsOfStep ''7 days before reminder''
     (workflowRun demoEnv ''s1'' 1707091200000 [0, 0, 0]) =
   [(1707350400000, ''7 days before reminder'',
     Composed \<lparr>sender = ''ratishjain6@gmail.com'', recipient = ''ann@example.org'',
       subject = ''Netflix renews in 7 days'', html = ''Feb 15, 2024''\<rparr>),
    (1707350400000, ''7 days before reminder'',
     Returned \<lparr>accepted = [''ann@example.org''], response = ''250 OK''\<rparr>)]"
  by (simp add: sendsOfStep_def run_defs demo_defs digits.simps)

subsection \<open>One threshold\<close>

lemma subtractDays_inject: "subtractDays D a = subtractDays D b \<longleftrightarrow> a = b"
  by (simp add: subtractDays_def msPerDay_def)

text \<open>
  One iteration of the loop, for threshold \<open>daysBefore\<close> with
  \<open>reminderDate = renewal - daysBefore\<close> days, in an execution of the handler at time
  \<open>now\<close>. While the sleep of the threshold is not recorded, the execution suspends
  until \<open>reminderDate\<close> exactly when \<open>reminderDate\<close> is strictly in the future. Once
  resumed (the sleep is recorded), or at once when \<open>reminderDate\<close> is not in the future:
  on the calendar day of \<open>reminderDate\<close> the execution performs the send step labelled
  with the threshold, unless that step is recorded already; on any other day, and after
  the step is recorded, it sends nothing for this threshold and goes on with the next
  one.
\<close>

lemma threshold_iteration:
  fixes steps :: "string \<rightharpoonup> stepValue" and renewal now :: timestamp
    and daysBefore :: nat and rest :: "nat list" and subscription :: subscription
  defines "reminderDate \<equiv> subtractDays renewal daysBefore"
  defines "p \<equiv> replay steps now (remindersLoop subscription renewal (daysBefore # rest))"
  defines "resumed \<equiv> \<not> now < reminderDate \<or> steps (sleepLabel daysBefore) \<noteq> None"
  shows "(steps (sleepLabel daysBefore) = None \<and> now < reminderDate \<longrightarrow>
            p = PendingSleep (sleepLabel daysBefore) reminderDate) \<and>
         (steps (sleepLabel daysBefore) = None \<and> daysBefore \<notin> set rest \<and>
            p = PendingSleep (sleepLabel daysBefore) reminderDate \<longrightarrow> now < reminderDate) \<and>
         (resumed \<and> steps (triggerLabel daysBefore) = None \<and>
            dayOf now = dayOf reminderDate \<longrightarrow>
            p = PendingRun (triggerLabel daysBefore)
                  (SendReminder (triggerLabel daysBefore) subscription)) \<and>
         (resumed \<and> dayOf now \<noteq> dayOf reminderDate \<longrightarrow>
            p = replay steps now (remindersLoop subscription renewal rest)) \<and>
         (resumed \<and> steps (triggerLabel daysBefore) \<noteq> None \<longrightarrow>
            p = replay steps now (remindersLoop subscription renewal rest))"
proof (intro conjI impI)
  assume "steps (sleepLabel daysBefore) = None \<and> now < reminderDate"
  then show "p = PendingSleep (sleepLabel daysBefore) reminderDate"
    by (simp add: p_def reminderDate_def Let_def isAfter_def sleepUntilReminder_def)
next
  assume a: "steps (sleepLabel daysBefore) = None \<and> daysBefore \<notin> set rest \<and>
            p = PendingSleep (sleepLabel daysBefore) reminderDate"
  show "now < reminderDate"
  proof (rule ccontr)
    assume n: "\<not> now < reminderDate"
    let ?q = "replay steps now (remindersLoop subscription renewal rest)"
    from n a have "?q = PendingSleep (sleepLabel daysBefore) reminderDate"
      by (auto simp: p_def reminderDate_def Let_def isAfter_def sleepUntilReminder_def
          triggerReminder_def split: if_splits option.splits)
    with replay_loop_pending [OF refl, of steps now subscription renewal rest]
    obtain n' where "n' \<in> set rest" "subtractDays renewal n' = reminderDate"
      by auto
    with a show False by (simp add: reminderDate_def subtractDays_inject)
  qed
next
  assume "resumed \<and> steps (triggerLabel daysBefore) = None \<and>
            dayOf now = dayOf reminderDate"
  then show "p = PendingRun (triggerLabel daysBefore)
            (SendReminder (triggerLabel daysBefore) subscription)"
    by (auto simp: p_def resumed_def reminderDate_def Let_def isAfter_def isSameDay_def
        sleepUntilReminder_def triggerReminder_def)
next
  assume "resumed \<and> dayOf now \<noteq> dayOf reminderDate"
  then show "p = replay steps now (remindersLoop subscription renewal rest)"
    by (auto simp: p_def resumed_def reminderDate_def Let_def isAfter_def isSameDay_def
        sleepUntilReminder_def triggerReminder_def)
next
  assume "resumed \<and> steps (triggerLabel daysBefore) \<noteq> None"
  then show "p = replay steps now (remindersLoop subscription renewal rest)"
    by (auto simp: p_def resumed_def reminderDate_def Let_def isAfter_def isSameDay_def
        sleepUntilReminder_def triggerReminder_def)
qed

lemma threshold_iteration_demo:
  "replay Map.empty 1707091200000 (remindersLoop demoSubscription 1707955200000 [7, 5, 3, 1])
     = PendingSleep ''Reminder 7 days before'' 1707350400000 \<and>
   replay Map.empty 1707350400000 (remindersLoop demoSubscription 1707955200000 [7, 5, 3, 1])
     = PendingRun ''7 days before reminder''
         (SendReminder ''7 days before reminder'' demoSubscription) \<and>
   replay Map.empty 1707436800000 (remindersLoop demoSubscription 1707955200000 [7, 5, 3, 1])
     = replay Map.empty 1707436800000 (remindersLoop demoSubscription 1707955200000 [5, 3, 1])"
  using threshold_iteration [where steps = Map.empty and daysBefore = 7 and now = 1707091200000
      and renewal = 1707955200000 and rest = "[5, 3, 1]" and subscription = demoSubscription]
    threshold_iteration [where steps = Map.empty and daysBefore = 7 and now = 1707350400000
      and renewal = 1707955200000 and rest = "[5, 3, 1]" and subscription = demoSubscription]
    threshold_iteration [where steps = Map.empty and daysBefore = 7 and now = 1707436800000
      and renewal = 1707955200000 and rest = "[5, 3, 1]" and subscription = demoSubscription]
  by (simp add: subtractDays_def msPerDay_def dayOf_def sleepLabel_def triggerLabel_def
      digits_small)

text \<open>
  C3. The iteration for threshold 7 in the run of the concrete world, executed by the
  invocation that follows the sleep, at the reminder date: the handler reaches the send
  step labelled with the threshold, nothing has been sent before, and carrying out this
  one step calls the mail transport twice, with the composed reminder and again with the
  object the first call returned.
\<close>

theorem threshold_sends_twice:
  "clock (workflowRun demoEnv ''s1'' 1707091200000 [0, 0]) = subtractDays 1707955200000 7 \<and>
   replay (steps (workflowRun demoEnv ''s1'' 1707091200000 [0, 0]))
     (clock (workflowRun demoEnv ''s1'' 1707091200000 [0, 0])) (sendReminders ''s1'')
     = PendingRun ''7 days before reminder''
         (SendReminder ''7 days before reminder'' demoSubscription) \<and>
   outbox (workflowRun demoEnv ''s1'' 1707091200000 [0, 0]) = [] \<and>
   outbox (invoke demoEnv ''s1'' (workflowRun demoEnv ''s1'' 1707091200000 [0, 0])) =
     [(1707350400000, ''7 days before reminder'',
       Composed \<lparr>sender = ''ratishjain6@gmail.com'', recipient = ''ann@example.org'',
         subject = ''Netflix renews in 7 days'', html = ''Feb 15, 2024''\<rparr>),
      (1707350400000, ''7 days before reminder'',
       Returned \<lparr>accepted = [''ann@example.org''], response = ''250 OK''\<rparr>)]"
  by (simp add: run_defs demo_defs digits.simps)

subsection \<open>Failure of the mail transport\<close>

lemma sendReminderEmail_transport_failure:
  assumes "sendReminderEmail m now to type sub = (calls, Inl (TransportFailure e))"
  shows "\<exists>request. calls = [Composed request] \<and> sendMail m now (Composed request) = Inl e"
  using assms
  by (auto simp: sendReminderEmail_def Let_def
      split: if_splits option.splits sum.splits prod.splits)

lemma retriesLeft_invoke: "retriesLeft (invoke w sid r) \<le> retriesLeft r"
proof -
  have "retriesLeft (runStep w lbl body r) \<le> retriesLeft r" for lbl body
    by (cases body) (simp_all add: stepFailed_def split: option.splits prod.splits sum.splits)
  then show ?thesis
    by (simp add: invoke_def split: pending.splits)
qed

lemma retriesLeft_workflowRun: "retriesLeft (workflowRun w sid start ds) = 0"
  unfolding workflowRun_def
proof (rule host_invariant)
  show "retriesLeft (trigger start) = 0" by (simp add: trigger_def)
next
  fix r :: run and d :: nat
  assume "retriesLeft r = 0"
  then show "retriesLeft ((invoke w sid r)\<lparr>clock := clock (invoke w sid r) + int d\<rparr>) = 0"
    using retriesLeft_invoke [of w sid r] by simp
qed

text \<open>
  A refusal of the awaited call. Let a run started by \<open>trigger\<close> (so with zero retries)
  have reached a send step whose promise rejects with the transport's error. Then the
  step is not recorded, the run has failed with that error, the host invokes nothing
  more (the refused call is the single call of the step), and the calls of the earlier
  steps are still in the log, unchanged and not repeated.
\<close>

lemma delivery_failure_fails_step:
  assumes run: "r = workflowRun w sid start ds1" "outcome r = Running"
    and pending: "replay (steps r) (clock r) (sendReminders sid)
                    = PendingRun lbl (SendReminder ty s)"
    and usr: "user s = Some u"
    and failure: "sendReminderEmail (mail w) (clock r) (email u) (Some ty) (Some s)
                    = (calls, Inl (TransportFailure e))"
  shows "(\<exists>request. calls = [Composed request] \<and>
            sendMail (mail w) (clock r) (Composed request) = Inl e) \<and>
         workflowRun w sid start (ds1 @ d # ds) =
           r\<lparr>outbox := outbox r @ map (\<lambda>c. (clock r, lbl, c)) calls,
             outcome := RunFailed (TransportFailure e),
             clock := clock r + int d\<rparr>"
proof
  show "\<exists>request. calls = [Composed request] \<and>
            sendMail (mail w) (clock r) (Composed request) = Inl e"
    using sendReminderEmail_transport_failure [OF failure] .
next
  have zero: "retriesLeft r = 0"
    using run(1) retriesLeft_workflowRun by simp
  let ?r' = "r\<lparr>outbox := outbox r @ map (\<lambda>c. (clock r, lbl, c)) calls,
             outcome := RunFailed (TransportFailure e)\<rparr>"
  have inv: "invoke w sid r = ?r'"
    using pending usr failure zero by (simp add: invoke_def stepFailed_def)
  have "workflowRun w sid start (ds1 @ d # ds) = host w sid (d # ds) r"
    using run(1) host_append [of w sid ds1 "d # ds" "trigger start"]
    by (simp add: workflowRun_def)
  also have "\<dots> = host w sid ds (?r'\<lparr>clock := clock r + int d\<rparr>)"
    using run(2) inv by (simp add: Let_def)
  also have "\<dots> = ?r'\<lparr>clock := clock r + int d\<rparr>"
    by (simp add: host_stopped)
  finally show "workflowRun w sid start (ds1 @ d # ds) =
           r\<lparr>outbox := outbox r @ map (\<lambda>c. (clock r, lbl, c)) calls,
             outcome := RunFailed (TransportFailure e),
             clock := clock r + int d\<rparr>"
    by simp
qed

lemma delivery_failure_fails_step_demo:
  "outcome (workflowRun (refusingFrom 1707523200000) ''s1'' 1707091200000
      ([0, 0, 0, 0] @ 0 # [0, 0, 0])) = RunFailed (TransportFailure ''550 rejected'') \<and>
   map (\<lambda>c. (fst c, fst (snd c), isComposed (snd (snd c))))
     (outbox (workflowRun (refusingFrom 1707523200000) ''s1'' 1707091200000
        ([0, 0, 0, 0] @ 0 # [0, 0, 0]))) =
   [(1707350400000, ''7 days before reminder'', True),
    (1707350400000, ''7 days before reminder'', False),
    (1707523200000, ''5 days before reminder'', True)]"
proof -
  let ?w = "refusingFrom 1707523200000"
  let ?r = "workflowRun ?w ''s1'' 1707091200000 [0, 0, 0, 0]"
  let ?m = "\<lparr>sender = ''ratishjain6@gmail.com'', recipient = ''ann@example.org'',
       subject = ''Netflix renews in 5 days'', html = ''Feb 15, 2024''\<rparr>"
  have r: "?r = \<lparr>steps = [''get subscription'' \<mapsto> SubscriptionValue (Some demoSubscription),
                  ''Reminder 7 days before'' \<mapsto> Undefined,
                  ''7 days before reminder'' \<mapsto> Undefined,
                  ''Reminder 5 days before'' \<mapsto> Undefined],
        clock = 1707523200000,
        outbox = [(1707350400000, ''7 days before reminder'',
            Composed \<lparr>sender = ''ratishjain6@gmail.com'', recipient = ''ann@example.org'',
              subject = ''Netflix renews in 7 days'', html = ''Feb 15, 2024''\<rparr>),
           (1707350400000, ''7 days before reminder'',
            Returned \<lparr>accepted = [''ann@example.org''], response = ''250 OK''\<rparr>)],
        dbLog = [(1707091200000, FindByIdPopulate ''s1'' ''user'' ''name email'')],
        retriesLeft = 0, outcome = Running\<rparr>"
    by (simp add: run_defs demo_defs digits.simps)
  have a: "outcome ?r = Running" by (simp add: r)
  have b: "replay (steps ?r) (clock ?r) (sendReminders ''s1'')
      = PendingRun ''5 days before reminder''
          (SendReminder ''5 days before reminder'' demoSubscription)"
    unfolding r by (simp add: run_defs demo_defs)
  have c: "user demoSubscription = Some demoUser" by (simp add: demoSubscription_def)
  have d: "sendReminderEmail (mail ?w) (clock ?r) (email demoUser)
       (Some ''5 days before reminder'') (Some demoSubscription)
      = ([Composed ?m], Inl (TransportFailure ''550 rejected''))"
    unfolding r by (simp add: run_defs demo_defs digits.simps)
  show ?thesis
    using delivery_failure_fails_step [OF refl a b c d, of 0 "[0, 0, 0]"]
    by (simp add: r)
qed

lemma sendReminderEmail_refused:
  assumes "find (\<lambda>t. label t = ty) (emailTemplates m) = Some t"
    and "user s = Some u" and "renewalDate s = Some D" and "addr \<noteq> []" and "ty \<noteq> []"
    and "sendMail m now (reminderMail m t s u addr D) = Inl e"
  shows "sendReminderEmail m now (Some addr) (Some ty) (Some s)
           = ([reminderMail m t s u addr D], Inl (TransportFailure e))"
  using assms by (simp add: sendReminderEmail_def reminderMail_def Let_def)

text \<open>So a refusal of the composed reminder by the transport fails the step and, with
  zero retries, the run.\<close>

lemma refusal_fails_run:
  assumes run: "r = workflowRun w sid start ds1" "outcome r = Running"
    and pending: "replay (steps r) (clock r) (sendReminders sid)
                    = PendingRun lbl (SendReminder ty s)"
    and usr: "user s = Some u" "email u = Some addr" "addr \<noteq> []"
    and sub: "renewalDate s = Some D" "ty \<noteq> []"
    and tpl: "find (\<lambda>t. label t = ty) (emailTemplates (mail w)) = Some t"
    and refused: "sendMail (mail w) (clock r) (reminderMail (mail w) t s u addr D) = Inl e"
  shows "workflowRun w sid start (ds1 @ d # ds) =
           r\<lparr>outbox := outbox r @ [(clock r, lbl, reminderMail (mail w) t s u addr D)],
             outcome := RunFailed (TransportFailure e),
             clock := clock r + int d\<rparr>"
proof -
  have "sendReminderEmail (mail w) (clock r) (email u) (Some ty) (Some s)
          = ([reminderMail (mail w) t s u addr D], Inl (TransportFailure e))"
    using sendReminderEmail_refused [OF tpl usr(1) sub(1) usr(3) sub(2) refused] usr(2)
    by simp
  from delivery_failure_fails_step [OF run pending usr(1) this, of d ds]
  show ?thesis by simp
qed

text \<open>
  C7. The concrete world with a transport that accepts the composed reminder and answers
  the second call with an error. The mail transport reports the failure to the callback
  of the second call, which throws; the promise of \<open>sendReminderEmail\<close> resolves all
  the same, the step "7 days before reminder" is recorded as completed, nothing fails,
  and the run goes on to its end.
\<close>

theorem callback_failure_not_propagated:
  "sendMail (mail refusingReturned) 1707350400000
     (Returned \<lparr>accepted = [''ann@example.org''], response = ''250 OK''\<rparr>)
     = Inl ''550 rejected'' \<and>
   sendReminderEmail (mail refusingReturned) 1707350400000 (Some ''ann@example.org'')
     (Some ''7 days before reminder'') (Some demoSubscription) =
     ([Composed \<lparr>sender = ''ratishjain6@gmail.com'', recipient = ''ann@example.org'',
         subject = ''Netflix renews in 7 days'', html = ''Feb 15, 2024''\<rparr>,
       Returned \<lparr>accepted = [''ann@example.org''], response = ''250 OK''\<rparr>],
      Inr (Thrown FailedToSendEmail)) \<and>
   steps (workflowRun refusingReturned ''s1'' 1707091200000 [0, 0, 0])
     ''7 days before reminder'' = Some Undefined \<and>
   outcome (workflowRun refusingReturned ''s1'' 1707091200000 [0, 0, 0]) = Running \<and>
   outcome (workflowRun refusingReturned ''s1'' 1707091200000
     [0, 0, 0, 0, 0, 0, 0, 0, 0, 0]) = Completed"
  by (simp add: run_defs demo_defs digits.simps)

end
